theory Spec2Isabelle
  imports Complex_Main "HOL-Library.Multiset" "HOL-Library.AList"
begin

section \<open>Data model\<close>

text \<open>
  The exceptions raised by \<^verbatim>\<open>tmtoolkit/topicmod/model_stats.py\<close>. \<open>IndexError\<close> is what
  numpy raises for an integer index outside an axis.
\<close>

datatype error = ValueError | AssertionError | IndexError

text \<open>
  A numpy array as the module reads it: its number of dimensions, and for a two-dimensional
  array the number of columns (\<^verbatim>\<open>shape[1]\<close>) and the rows (\<^verbatim>\<open>shape[0]\<close> is their number).
  The column count is kept apart from the rows since an array with no rows still has one.
  An array of another dimensionality is only ever rejected by its \<open>ndim\<close>.
  Floating-point entries are taken as real numbers: the model keeps the shapes of the
  arrays, the branches taken and the order of the scores. Rounding, overflow, underflow,
  infinities and NaN of \<^verbatim>\<open>float64\<close> are not represented, so nothing is stated below about
  the exact value or the sign of a floating-point result, and the theorems assume the inputs
  on which numpy divides by a non-zero number and takes logarithms of positive numbers.
\<close>

record 'a ndarray =
  ndim :: nat
  shape1 :: nat
  rows :: "'a list list"

definition shape0 :: "'a ndarray \<Rightarrow> nat" where
  "shape0 a = length (rows a)"

definition is_2d :: "'a ndarray \<Rightarrow> bool" where
  "is_2d a = (ndim a = 2 \<and> list_all (\<lambda>r. length r = shape1 a) (rows a))"

definition array2 :: "nat \<Rightarrow> 'a list list \<Rightarrow> 'a ndarray" where
  "array2 c rs = \<lparr>ndim = 2, shape1 = c, rows = rs\<rparr>"


section \<open>Ranking primitive\<close>

text \<open>
  \<^verbatim>\<open>np.argsort(score)\<close> is a library function. What it promises is that its result is a
  permutation of the positions of \<open>score\<close> along which the scores ascend. The code calls
  it with the default sort kind, which is not stable: the order in which positions of equal
  score are returned is not determined, and differs between numpy builds and array sizes.
  \<open>is_argsort score indices\<close> says that \<open>indices\<close> is a result that the call may return.
\<close>

definition is_argsort :: "real list \<Rightarrow> nat list \<Rightarrow> bool" where
  "is_argsort score indices =
     (sort indices = [0..<length score] \<and> sorted (map (\<lambda>i. score ! i) indices))"

text \<open>\<^verbatim>\<open>indices[::-1]\<close> unless \<open>least_to_most\<close>.\<close>

definition directed :: "nat list \<Rightarrow> bool \<Rightarrow> nat list" where
  "directed indices least_to_most = (if \<not> least_to_most then rev indices else indices)"

text \<open>
  \<^verbatim>\<open>_words_by_score\<close>, with the value that \<^verbatim>\<open>np.argsort(score)\<close> returned as its first
  argument.
\<close>

definition words_by_score_with ::
  "nat list \<Rightarrow> 'a list \<Rightarrow> real list \<Rightarrow> bool \<Rightarrow> int option \<Rightarrow> error + 'a list" where
  "words_by_score_with argsort_score words score least_to_most n =
     (if length words \<noteq> length score then Inl ValueError
      else if (case n of None \<Rightarrow> False | Some k \<Rightarrow> k \<le> 0 \<or> k > int (length words))
        then Inl ValueError
      else
        let indices = directed argsort_score least_to_most;
            ordered_words = map (\<lambda>i. words ! i) indices
        in (case n of
              Some k \<Rightarrow> Inr (take (nat k) ordered_words)
            | None \<Rightarrow> Inr ordered_words))"

text \<open>
  One function that meets the promise of \<^verbatim>\<open>np.argsort\<close>: the stable sort of the positions.
  It stands for the library call where the order among equal scores plays no part; every
  statement below that depends on that order is made for all results that \<open>is_argsort\<close>
  admits.
\<close>

definition argsort :: "real list \<Rightarrow> nat list" where
  "argsort score = sort_key (\<lambda>i. score ! i) [0..<length score]"

definition score_indices :: "real list \<Rightarrow> bool \<Rightarrow> nat list" where
  "score_indices score least_to_most = directed (argsort score) least_to_most"

definition words_by_score :: "'a list \<Rightarrow> real list \<Rightarrow> bool \<Rightarrow> int option \<Rightarrow> error + 'a list" where
  "words_by_score words score least_to_most n =
     words_by_score_with (argsort score) words score least_to_most n"


text \<open>
  An occurrence of \<open>x\<close> lies before an occurrence of \<open>y\<close> in a list: how "comes first in
  the output" is read below, on the list of original indices.
\<close>

fun comes_before :: "'a \<Rightarrow> 'a \<Rightarrow> 'a list \<Rightarrow> bool" where
  "comes_before x y [] = False"
| "comes_before x y (z # zs) = ((z = x \<and> y \<in> set zs) \<or> comes_before x y zs)"


section \<open>numpy operations used by the module\<close>

text \<open>\<^verbatim>\<open>a.sum(axis=1)\<close>: one sum per row.\<close>

definition np_sum_axis1 :: "'a::comm_monoid_add ndarray \<Rightarrow> 'a list" where
  "np_sum_axis1 a = map sum_list (rows a)"

text \<open>
  Sums of integers. numpy adds integer arrays in its 64-bit signed type \<^verbatim>\<open>int64\<close> (also
  when the entries are of a smaller integer type) and does not check for overflow: the
  result is the sum modulo \<open>2^64\<close>, read as a signed number. \<open>wrap64\<close> is that reading,
  \<open>int64_sum\<close> is \<^verbatim>\<open>np.sum\<close> of a vector, and \<open>int64_sum_axis0\<close> is \<^verbatim>\<open>np.sum(a, axis=0)\<close>,
  one sum per column.
\<close>

definition wrap64 :: "int \<Rightarrow> int" where
  "wrap64 x = (x + 2 ^ 63) mod 2 ^ 64 - 2 ^ 63"

definition int64_sum :: "int list \<Rightarrow> int" where
  "int64_sum xs = wrap64 (sum_list xs)"

definition int64_sum_axis0 :: "int ndarray \<Rightarrow> int list" where
  "int64_sum_axis0 a = map (\<lambda>j. int64_sum (map (\<lambda>r. r ! j) (rows a))) [0..<shape1 a]"

text \<open>\<^verbatim>\<open>a.T\<close>, \<^verbatim>\<open>np.log(a)\<close> and the product of a scalar with an array.\<close>

definition np_T :: "'a ndarray \<Rightarrow> 'a ndarray" where
  "np_T a = array2 (shape0 a) (map (\<lambda>j. map (\<lambda>r. r ! j) (rows a)) [0..<shape1 a])"

definition np_log :: "real ndarray \<Rightarrow> real ndarray" where
  "np_log a = a\<lparr>rows := map (map ln) (rows a)\<rparr>"

definition np_scale :: "real \<Rightarrow> real ndarray \<Rightarrow> real ndarray" where
  "np_scale c a = a\<lparr>rows := map (map (\<lambda>x. c * x)) (rows a)\<rparr>"

text \<open>
  Broadcasting of an elementwise operation. Two axis lengths are compatible when they are
  equal or one of them is 1 (that axis is then stretched: every index reads its entry 0);
  otherwise numpy raises ValueError.
\<close>

definition bdim :: "nat \<Rightarrow> nat \<Rightarrow> nat option" where
  "bdim m n = (if m = n then Some m else if m = 1 then Some n else if n = 1 then Some m else None)"

definition bidx :: "nat \<Rightarrow> nat \<Rightarrow> nat" where
  "bidx m j = (if m = 1 then 0 else j)"

text \<open>A two-dimensional array with a vector, which runs along the columns.\<close>

definition broadcast_vec ::
  "(real \<Rightarrow> real \<Rightarrow> real) \<Rightarrow> real ndarray \<Rightarrow> real list \<Rightarrow> error + real ndarray" where
  "broadcast_vec f a v =
     (case bdim (shape1 a) (length v) of
        None \<Rightarrow> Inl ValueError
      | Some c \<Rightarrow>
          Inr (array2 c
            (map (\<lambda>r. map (\<lambda>j. f (r ! bidx (shape1 a) j) (v ! bidx (length v) j)) [0..<c])
               (rows a))))"

text \<open>Two two-dimensional arrays.\<close>

definition broadcast_mat ::
  "(real \<Rightarrow> real \<Rightarrow> real) \<Rightarrow> real ndarray \<Rightarrow> real ndarray \<Rightarrow> error + real ndarray" where
  "broadcast_mat f a b =
     (case (bdim (shape0 a) (shape0 b), bdim (shape1 a) (shape1 b)) of
        (Some r, Some c) \<Rightarrow>
          Inr (array2 c
            (map (\<lambda>i. map (\<lambda>j. f (rows a ! bidx (shape0 a) i ! bidx (shape1 a) j)
                                   (rows b ! bidx (shape0 b) i ! bidx (shape1 b) j)) [0..<c])
               [0..<r]))
      | _ \<Rightarrow> Inl ValueError)"

text \<open>\<^verbatim>\<open>a[i]\<close> for an integer \<open>i\<close>: a negative index counts from the end.\<close>

definition np_getrow :: "'a ndarray \<Rightarrow> int \<Rightarrow> error + 'a list" where
  "np_getrow a i =
     (if 0 \<le> i \<and> i < int (shape0 a) then Inr (rows a ! nat i)
      else if - int (shape0 a) \<le> i \<and> i < 0 then Inr (rows a ! nat (int (shape0 a) + i))
      else Inl IndexError)"


section \<open>Statistics of a document-term matrix\<close>

text \<open>
  The document-term matrix holds counts: \<^verbatim>\<open>int64\<close> values, the integers from \<open>- 2^63\<close> up to
  \<open>2^63 - 1\<close>, whose sums wrap around. The branches of the source for \<^verbatim>\<open>np.matrix\<close> and
  sparse matrices only convert the representation and are not told apart here. The
  proportions (\<^verbatim>\<open>unnorm / unnorm.sum()\<close>, a true division of integers) are the exact
  quotients, which the floating-point results approximate.
\<close>

definition get_term_frequencies :: "int ndarray \<Rightarrow> error + int list" where
  "get_term_frequencies dtm =
     (if ndim dtm \<noteq> 2 then Inl ValueError else Inr (int64_sum_axis0 dtm))"

definition get_term_proportions :: "int ndarray \<Rightarrow> error + real list" where
  "get_term_proportions dtm =
     (case get_term_frequencies dtm of
        Inl e \<Rightarrow> Inl e
      | Inr unnorm \<Rightarrow>
          if int64_sum unnorm = 0 then Inl ValueError
          else Inr (map (\<lambda>x. real_of_int x / real_of_int (int64_sum unnorm)) unnorm))"

text \<open>
  The values of the co-document dictionary: the integer \<^verbatim>\<open>np.sum\<close> returns, or the float
  of the true division \<^verbatim>\<open>freq /= n_docs\<close>. On numpy scalars a division by zero does not
  raise: it gives NaN for \<open>0 / 0\<close> and infinity otherwise.
\<close>

datatype number = IntNum int | FloatNum real | FloatInf | FloatNaN

definition true_divide :: "int \<Rightarrow> nat \<Rightarrow> number" where
  "true_divide x n =
     (if n = 0 then (if x = 0 then FloatNaN else FloatInf)
      else FloatNum (real_of_int x / real n))"

text \<open>\<^verbatim>\<open>itertools.combinations(xs, 2)\<close>: the pairs in lexicographic order of positions.\<close>

fun combinations2 :: "'a list \<Rightarrow> ('a \<times> 'a) list" where
  "combinations2 [] = []"
| "combinations2 (x # xs) = map (Pair x) xs @ combinations2 xs"

text \<open>
  The dictionary is an association list in insertion order; \<^verbatim>\<open>codoc_freq[(w1, w2)] = freq\<close>
  overwrites the value of a key already there and appends a new key otherwise.
\<close>

definition codoc_value :: "bool list list \<Rightarrow> nat \<Rightarrow> bool \<Rightarrow> nat \<Rightarrow> nat \<Rightarrow> number" where
  "codoc_value word_in_doc n_docs proportions w1 w2 =
     (let w1_in_docs = map (\<lambda>r. r ! w1) word_in_doc;
          w2_in_docs = map (\<lambda>r. r ! w2) word_in_doc;
          freq = int (length (filter id (map2 (\<and>) w1_in_docs w2_in_docs)))
      in if proportions then true_divide freq n_docs else IntNum freq)"

definition get_codoc_frequencies ::
  "int ndarray \<Rightarrow> int \<Rightarrow> bool \<Rightarrow> error + ((nat \<times> nat) \<times> number) list" where
  "get_codoc_frequencies dtm min_val proportions =
     (if ndim dtm \<noteq> 2 then Inl ValueError
      else
        let n_docs = shape0 dtm; n_vocab = shape1 dtm
        in if n_vocab < 2 then Inl ValueError
           else
             let word_in_doc = map (map (\<lambda>x. x \<ge> min_val)) (rows dtm)
             in Inr (fold (\<lambda>(w1, w2). AList.update (w1, w2)
                                (codoc_value word_in_doc n_docs proportions w1 w2))
                       (combinations2 [0..<n_vocab]) []))"


text \<open>
  What the statements below say about a document-term matrix: the total of its entries (the
  number of tokens, as a mathematical integer), that no entry is negative, that every entry
  is zero, and that a value of the co-document dictionary is a number between 0 and 1.
\<close>

definition np_sum_all :: "'a::comm_monoid_add ndarray \<Rightarrow> 'a" where
  "np_sum_all a = sum_list (map sum_list (rows a))"

definition nonneg_entries :: "int ndarray \<Rightarrow> bool" where
  "nonneg_entries a = list_all (list_all (\<lambda>x. 0 \<le> x)) (rows a)"

definition all_zero :: "int ndarray \<Rightarrow> bool" where
  "all_zero a = list_all (list_all (\<lambda>x. x = 0)) (rows a)"

definition in_unit_interval :: "number \<Rightarrow> bool" where
  "in_unit_interval v =
     (case v of
        IntNum k \<Rightarrow> 0 \<le> k \<and> k \<le> 1
      | FloatNum x \<Rightarrow> 0 \<le> x \<and> x \<le> 1
      | _ \<Rightarrow> False)"

section \<open>Marginal distributions and relevance\<close>

definition get_marginal_topic_distrib :: "real ndarray \<Rightarrow> real list \<Rightarrow> error + real list" where
  "get_marginal_topic_distrib doc_topic_distrib doc_lengths =
     (case broadcast_vec (*) (np_T doc_topic_distrib) doc_lengths of
        Inl e \<Rightarrow> Inl e
      | Inr m \<Rightarrow>
          let unnorm = np_sum_axis1 m
          in Inr (map (\<lambda>x. x / sum_list unnorm) unnorm))"

definition get_marginal_word_distrib :: "real ndarray \<Rightarrow> real list \<Rightarrow> error + real list" where
  "get_marginal_word_distrib topic_word_distrib p_t =
     (case broadcast_vec (*) (np_T topic_word_distrib) p_t of
        Inl e \<Rightarrow> Inl e
      | Inr m \<Rightarrow> Inr (np_sum_axis1 m))"

definition get_topic_word_relevance ::
  "real ndarray \<Rightarrow> real ndarray \<Rightarrow> real list \<Rightarrow> real \<Rightarrow> error + real ndarray" where
  "get_topic_word_relevance topic_word_distrib doc_topic_distrib doc_lengths lambda =
     (case get_marginal_topic_distrib doc_topic_distrib doc_lengths of
        Inl e \<Rightarrow> Inl e
      | Inr p_t \<Rightarrow>
          (case get_marginal_word_distrib topic_word_distrib p_t of
             Inl e \<Rightarrow> Inl e
           | Inr p_w \<Rightarrow>
               let logtw = np_log topic_word_distrib
               in (case broadcast_vec (/) topic_word_distrib p_w of
                     Inl e \<Rightarrow> Inl e
                   | Inr q \<Rightarrow>
                       let loglift = np_log q
                       in broadcast_mat (+) (np_scale lambda logtw)
                            (np_scale (1 - lambda) loglift))))"

definition check_relevant_words_for_topic_args ::
  "'a list \<Rightarrow> real ndarray \<Rightarrow> int \<Rightarrow> error + unit" where
  "check_relevant_words_for_topic_args vocab rel_mat topic =
     (if ndim rel_mat \<noteq> 2 then Inl ValueError
      else if length vocab \<noteq> shape1 rel_mat then Inl ValueError
      else if \<not> (0 \<le> topic \<and> topic < int (shape0 rel_mat)) then Inl ValueError
      else Inr ())"

definition relevant_words_for_topic ::
  "bool \<Rightarrow> 'a list \<Rightarrow> real ndarray \<Rightarrow> int \<Rightarrow> int option \<Rightarrow> error + 'a list" where
  "relevant_words_for_topic least_to_most vocab rel_mat topic n =
     (case check_relevant_words_for_topic_args vocab rel_mat topic of
        Inl e \<Rightarrow> Inl e
      | Inr _ \<Rightarrow>
          (case np_getrow rel_mat topic of
             Inl e \<Rightarrow> Inl e
           | Inr score \<Rightarrow> words_by_score vocab score least_to_most n))"

definition get_most_relevant_words_for_topic ::
  "'a list \<Rightarrow> real ndarray \<Rightarrow> int \<Rightarrow> int option \<Rightarrow> error + 'a list" where
  "get_most_relevant_words_for_topic vocab rel_mat topic n =
     relevant_words_for_topic False vocab rel_mat topic n"

definition get_least_relevant_words_for_topic ::
  "'a list \<Rightarrow> real ndarray \<Rightarrow> int \<Rightarrow> int option \<Rightarrow> error + 'a list" where
  "get_least_relevant_words_for_topic vocab rel_mat topic n =
     relevant_words_for_topic True vocab rel_mat topic n"


section \<open>Topic labels\<close>

text \<open>\<^verbatim>\<open>str(n)\<close> of a natural number, and \<^verbatim>\<open>glue.join(ws)\<close>.\<close>

definition digit_char :: "nat \<Rightarrow> char" where
  "digit_char d = char_of (48 + d)"

fun str_of_nat :: "nat \<Rightarrow> string" where
  "str_of_nat n =
     (if n < 10 then [digit_char n] else str_of_nat (n div 10) @ [digit_char (n mod 10)])"

declare str_of_nat.simps [simp del]

fun str_join :: "string \<Rightarrow> string list \<Rightarrow> string" where
  "str_join glue [] = []"
| "str_join glue [w] = w"
| "str_join glue (w # ws) = w @ glue @ str_join glue ws"

text \<open>
  A format string as \<^verbatim>\<open>str.format\<close> parses it: literal text and the replacement fields
  \<^verbatim>\<open>{i0}\<close>, \<^verbatim>\<open>{i1}\<close>, \<^verbatim>\<open>{topwords}\<close>, the three keywords the call passes.
\<close>

datatype field = Lit string | I0 | I1 | Topwords

fun format_field :: "nat \<Rightarrow> nat \<Rightarrow> string \<Rightarrow> field \<Rightarrow> string" where
  "format_field i0 i1 topwords (Lit s) = s"
| "format_field i0 i1 topwords I0 = str_of_nat i0"
| "format_field i0 i1 topwords I1 = str_of_nat i1"
| "format_field i0 i1 topwords Topwords = topwords"

definition str_format :: "field list \<Rightarrow> nat \<Rightarrow> nat \<Rightarrow> string \<Rightarrow> string" where
  "str_format labels_format i0 i1 topwords =
     concat (map (format_field i0 i1 topwords) labels_format)"

text \<open>The defaults \<^verbatim>\<open>labels_glue='_'\<close> and \<^verbatim>\<open>labels_format='{i1}_{topwords}'\<close>.\<close>

definition default_labels_glue :: string where
  "default_labels_glue = ''_''"

definition default_labels_format :: "field list" where
  "default_labels_format = [I1, Lit ''_'', Topwords]"

text \<open>A list comprehension whose elements may raise: the first exception ends it.\<close>

fun collect :: "(error + 'a) list \<Rightarrow> error + 'a list" where
  "collect [] = Inr []"
| "collect (x # xs) =
     (case x of
        Inl e \<Rightarrow> Inl e
      | Inr y \<Rightarrow> (case collect xs of Inl e \<Rightarrow> Inl e | Inr ys \<Rightarrow> Inr (y # ys)))"

text \<open>
  The search loop \<^verbatim>\<open>for n in n_words\<close>: the third argument is \<open>n_most_rel\<close> before the
  iteration; the loop leaves at the first \<open>n\<close> whose prefixes have as many elements as
  their set, and otherwise keeps the prefixes of the last \<open>n\<close>.
\<close>

fun n_most_rel_loop :: "nat list \<Rightarrow> 'a list list \<Rightarrow> 'a list list \<Rightarrow> 'a list list" where
  "n_most_rel_loop [] most_rel_words n_most_rel = n_most_rel"
| "n_most_rel_loop (n # ns) most_rel_words n_most_rel =
     (let n_most_rel' = map (take n) most_rel_words
      in if length n_most_rel' = card (set n_most_rel') then n_most_rel'
         else n_most_rel_loop ns most_rel_words n_most_rel')"

text \<open>
  The comprehension \<^verbatim>\<open>[tuple(get_most_relevant_words_for_topic(vocab, rel_mat, t)) for t in
  range(topic_word_distrib.shape[0])]\<close>.
\<close>

definition most_rel_words_of :: "'a list \<Rightarrow> real ndarray \<Rightarrow> nat \<Rightarrow> error + 'a list list" where
  "most_rel_words_of vocab rel_mat n_topics =
     collect (map (\<lambda>t. get_most_relevant_words_for_topic vocab rel_mat (int t) None)
                [0..<n_topics])"

definition topic_labels_of :: "string \<Rightarrow> field list \<Rightarrow> string list list \<Rightarrow> string list" where
  "topic_labels_of labels_glue labels_format n_most_rel =
     map (\<lambda>(i, ws). str_format labels_format i (i + 1) (str_join labels_glue ws))
       (enumerate 0 n_most_rel)"

definition generate_topic_labels_from_top_words ::
  "real ndarray \<Rightarrow> real ndarray \<Rightarrow> real list \<Rightarrow> string list \<Rightarrow> int option \<Rightarrow> real
     \<Rightarrow> string \<Rightarrow> field list \<Rightarrow> error + string list" where
  "generate_topic_labels_from_top_words topic_word_distrib doc_topic_distrib doc_lengths vocab
       n_words lambda labels_glue labels_format =
     (case get_topic_word_relevance topic_word_distrib doc_topic_distrib doc_lengths lambda of
        Inl e \<Rightarrow> Inl e
      | Inr rel_mat \<Rightarrow>
          (case (case n_words of
                   None \<Rightarrow> Inr [1..<length vocab + 1]
                 | Some k \<Rightarrow>
                     if \<not> (1 \<le> k \<and> k \<le> int (length vocab)) then Inl ValueError
                     else Inr [nat k..<nat k + 1]) of
             Inl e \<Rightarrow> Inl e
           | Inr ns \<Rightarrow>
               (case most_rel_words_of vocab rel_mat (shape0 topic_word_distrib) of
                  Inl e \<Rightarrow> Inl e
                | Inr most_rel_words \<Rightarrow>
                    let n_most_rel = n_most_rel_loop ns most_rel_words []
                    in if n_most_rel = [] then Inl AssertionError
                       else
                         let topic_labels = topic_labels_of labels_glue labels_format n_most_rel
                         in if length topic_labels \<noteq> card (set topic_labels)
                            then Inl ValueError
                            else Inr topic_labels)))"



section \<open>Conditions on the inputs\<close>

text \<open>
  The shapes of a topic model agree: \<open>phi\<close> is topics by vocabulary, \<open>theta\<close> is documents
  by topics, and there is one length per document.
\<close>

definition matching_shapes :: "real ndarray \<Rightarrow> real ndarray \<Rightarrow> real list \<Rightarrow> bool" where
  "matching_shapes phi theta doc_lengths =
     (is_2d phi \<and> is_2d theta \<and> shape1 theta = shape0 phi \<and> length doc_lengths = shape0 theta)"

definition positive_entries :: "real ndarray \<Rightarrow> bool" where
  "positive_entries a = list_all (list_all (\<lambda>x. 0 < x)) (rows a)"

definition row_stochastic :: "real ndarray \<Rightarrow> bool" where
  "row_stochastic a = list_all (\<lambda>r. list_all (\<lambda>x. 0 \<le> x) r \<and> sum_list r = 1) (rows a)"

text \<open>
  A valid document-topic distribution with document lengths: every row of \<open>theta\<close> is a
  distribution, no length is negative and some document is not empty.
\<close>

definition valid_theta :: "real ndarray \<Rightarrow> real list \<Rightarrow> bool" where
  "valid_theta theta doc_lengths =
     (row_stochastic theta \<and> list_all (\<lambda>l. 0 \<le> l) doc_lengths \<and> 0 < sum_list doc_lengths)"

text \<open>The prefixes of length \<open>n\<close> of the rankings are pairwise distinct across topics.\<close>

definition unique_prefixes :: "'a list list \<Rightarrow> nat \<Rightarrow> bool" where
  "unique_prefixes most_rel_words n = distinct (map (take n) most_rel_words)"

section \<open>Properties of the ranking primitive\<close>

lemma mset_argsort: "mset (argsort score) = mset [0..<length score]"
  by (simp add: argsort_def)

lemma mset_score_indices: "mset (score_indices score b) = mset [0..<length score]"
  by (simp add: score_indices_def directed_def mset_argsort)

lemma mset_map_nth_upt: "mset (map (\<lambda>i. xs ! i) [0..<length xs]) = mset xs"
  by (simp add: map_nth)

lemma mset_reorder:
  assumes "mset is = mset [0..<length xs]"
  shows "mset (map (\<lambda>i. xs ! i) is) = mset xs"
proof -
  have "mset (map (\<lambda>i. xs ! i) is) = image_mset (\<lambda>i. xs ! i) (mset is)"
    by simp
  also have "\<dots> = image_mset (\<lambda>i. xs ! i) (mset [0..<length xs])"
    using assms by simp
  also have "\<dots> = mset (map (\<lambda>i. xs ! i) [0..<length xs])"
    by simp
  finally show ?thesis
    by (simp only: mset_map_nth_upt)
qed

text \<open>
  C9: with \<open>n = None\<close> and vectors of equal length, the ranking primitive returns a
  permutation of the items, in ascending and in descending order: the same multiset of
  elements, hence the same length.
\<close>

theorem words_by_score_permutation:
  assumes "length words = length score"
  shows "\<exists>ys. words_by_score words score least_to_most None = Inr ys
              \<and> mset ys = mset words \<and> length ys = length words"
proof -
  let ?ys = "map (\<lambda>i. words ! i) (score_indices score least_to_most)"
  have r: "words_by_score words score least_to_most None = Inr ?ys"
    using assms by (simp add: words_by_score_def words_by_score_with_def score_indices_def)
  have m: "mset ?ys = mset words"
    using assms mset_reorder [of "score_indices score least_to_most" words]
    by (simp add: mset_score_indices)
  have "length ?ys = length words"
    using m by (metis size_mset)
  with r m show ?thesis by blast
qed

theorem words_by_score_permutation_witness:
  "\<exists>ys. words_by_score [''a'', ''b'', ''c''] [3, 1, 2] True None = Inr ys
        \<and> mset ys = mset [''a'', ''b'', ''c''] \<and> length ys = length [''a'', ''b'', ''c'']"
  using words_by_score_permutation [of "[''a'', ''b'', ''c'']" "[3, 1, 2]" True] by simp

lemma comes_before_iff:
  "comes_before x y xs \<longleftrightarrow> (\<exists>as bs. xs = as @ x # bs \<and> y \<in> set bs)"
proof (induction xs)
  case Nil
  show ?case by simp
next
  case (Cons z zs)
  show ?case
  proof
    assume "comes_before x y (z # zs)"
    then consider "z = x" "y \<in> set zs" | "comes_before x y zs" by auto
    then show "\<exists>as bs. z # zs = as @ x # bs \<and> y \<in> set bs"
    proof cases
      case 1
      then have "z # zs = [] @ x # zs \<and> y \<in> set zs" by simp
      then show ?thesis by blast
    next
      case 2
      with Cons.IH obtain as bs where "zs = as @ x # bs" "y \<in> set bs" by blast
      then have "z # zs = (z # as) @ x # bs \<and> y \<in> set bs" by simp
      then show ?thesis by blast
    qed
  next
    assume "\<exists>as bs. z # zs = as @ x # bs \<and> y \<in> set bs"
    then obtain as bs where e: "z # zs = as @ x # bs" and y: "y \<in> set bs" by blast
    show "comes_before x y (z # zs)"
    proof (cases as)
      case Nil
      with e y show ?thesis by simp
    next
      case (Cons a as')
      with e have "zs = as' @ x # bs" by simp
      with y Cons.IH have "comes_before x y zs" by blast
      then show ?thesis by simp
    qed
  qed
qed

lemma comes_before_rev:
  assumes "comes_before x y xs" 
  shows "comes_before y x (rev xs)"
proof -
  from assms obtain as bs where xs: "xs = as @ x # bs" and "y \<in> set bs"
    by (auto simp: comes_before_iff)
  then obtain cs ds where "bs = cs @ y # ds" by (meson split_list)
  with xs have "rev xs = rev ds @ y # (rev cs @ x # rev as)" by simp
  moreover have "x \<in> set (rev cs @ x # rev as)" by simp
  ultimately show ?thesis unfolding comes_before_iff by blast
qed

lemma comes_before_in_set:
  assumes "comes_before x y xs"
  shows "x \<in> set xs \<and> y \<in> set xs"
  using assms by (induction xs) auto

lemma comes_before_distinct:
  assumes "distinct xs" "comes_before x y xs"
  shows "\<not> comes_before y x xs"
  using assms by (induction xs) (auto dest: comes_before_in_set)

lemma score_indices_simps:
  "score_indices score True = argsort score"
  "score_indices score False = rev (argsort score)"
  by (simp_all add: score_indices_def directed_def)

lemma words_by_score_None:
  assumes "length words = length score"
  shows "words_by_score words score b None = Inr (map (\<lambda>i. words ! i) (score_indices score b))"
  using assms by (simp add: words_by_score_def words_by_score_with_def score_indices_def)

lemma words_by_score_with_None:
  assumes "length words = length score"
  shows "words_by_score_with indices words score b None
       = Inr (map (\<lambda>i. words ! i) (directed indices b))"
  using assms by (simp add: words_by_score_with_def)

lemma argsort_is_argsort: "is_argsort score (argsort score)"
proof -
  have "sort (argsort score) = sort [0..<length score]"
    by (rule properties_for_sort) (simp_all add: argsort_def)
  then show ?thesis
    by (simp add: is_argsort_def argsort_def sorted_sort_id)
qed

lemma is_argsort_permutation:
  assumes "is_argsort score indices"
  shows "distinct indices" "set indices = {0..<length score}"
proof -
  have s: "sort indices = [0..<length score]" using assms by (simp add: is_argsort_def)
  have "distinct (sort indices)" by (simp only: s distinct_upt)
  then show "distinct indices" by simp
  have "set (sort indices) = {0..<length score}" by (simp only: s set_upt)
  then show "set indices = {0..<length score}" by simp
qed

lemma comes_before_total:
  assumes "x \<in> set xs" "y \<in> set xs" "x \<noteq> y"
  shows "comes_before x y xs \<or> comes_before y x xs"
  using assms by (induction xs) auto

text \<open>
  C1 (amended): for vectors of equal length, whatever order \<^verbatim>\<open>np.argsort\<close> returns equal
  scores in, the descending ranking is the ascending ranking reversed. So of two items of
  equal score at the original positions \<open>i < j\<close>, the one of the lower position \<open>i\<close> comes
  first in exactly one of the two rankings, and in the other one \<open>j\<close> comes first.
\<close>

theorem words_by_score_tie_order:
  assumes "is_argsort score indices" "length words = length score"
    and "i < j" "j < length score" "score ! i = score ! j"
  shows "words_by_score_with indices words score True None = Inr (map (\<lambda>k. words ! k) indices)
       \<and> words_by_score_with indices words score False None
           = Inr (rev (map (\<lambda>k. words ! k) indices))
       \<and> directed indices False = rev (directed indices True)
       \<and> (comes_before i j (directed indices True)
            \<longleftrightarrow> \<not> comes_before i j (directed indices False))
       \<and> (comes_before i j (directed indices True)
            \<longleftrightarrow> comes_before j i (directed indices False))"
proof -
  have d: "distinct indices" and s: "set indices = {0..<length score}"
    using assms(1) by (rule is_argsort_permutation)+
  have i: "i \<in> set indices" and j: "j \<in> set indices" and ne: "i \<noteq> j"
    using s assms(3,4) by simp_all
  have total: "comes_before i j indices \<or> comes_before j i indices"
    using i j ne by (rule comes_before_total)
  have excl: "\<not> (comes_before i j indices \<and> comes_before j i indices)"
    using comes_before_distinct [OF d] by blast
  have rev1: "comes_before j i (rev indices)" if "comes_before i j indices"
    using that by (rule comes_before_rev)
  have rev2: "comes_before i j indices" if "comes_before j i (rev indices)"
    using comes_before_rev [OF that] by simp
  have rev3: "comes_before i j (rev indices)" if "comes_before j i indices"
    using that by (rule comes_before_rev)
  have rev4: "comes_before j i indices" if "comes_before i j (rev indices)"
    using comes_before_rev [OF that] by simp
  have a: "comes_before i j indices \<longleftrightarrow> \<not> comes_before i j (rev indices)"
    using total excl rev3 rev4 by blast
  have b: "comes_before i j indices \<longleftrightarrow> comes_before j i (rev indices)"
    using rev1 rev2 by blast
  show ?thesis
    using a b by (simp add: words_by_score_with_None [OF assms(2)] directed_def rev_map)
qed

theorem words_by_score_tie_order_witness:
  "words_by_score_with [0, 2, 1] [''a'', ''b'', ''c''] [1, 2, 1] True None
     = Inr [''a'', ''c'', ''b'']
   \<and> words_by_score_with [0, 2, 1] [''a'', ''b'', ''c''] [1, 2, 1] False None
     = Inr [''b'', ''c'', ''a'']
   \<and> comes_before 0 2 (directed [0, 2, 1] True)
   \<and> \<not> comes_before 0 2 (directed [0, 2, 1] False)
   \<and> words_by_score_with [2, 0, 1] [''a'', ''b'', ''c''] [1, 2, 1] True None
     = Inr [''c'', ''a'', ''b'']
   \<and> words_by_score_with [2, 0, 1] [''a'', ''b'', ''c''] [1, 2, 1] False None
     = Inr [''b'', ''a'', ''c'']
   \<and> \<not> comes_before 0 2 (directed [2, 0, 1] True)
   \<and> comes_before 0 2 (directed [2, 0, 1] False)"
  using words_by_score_tie_order [of "[1, 2, 1]" "[0, 2, 1]" "[''a'', ''b'', ''c'']" 0 2]
    words_by_score_tie_order [of "[1, 2, 1]" "[2, 0, 1]" "[''a'', ''b'', ''c'']" 0 2]
  by (simp add: is_argsort_def directed_def upt_rec)

text \<open>
  C1 as stated fails on two items of equal score, whichever of its two possible results
  \<^verbatim>\<open>np.argsort\<close> returns: if it returns the positions as \<open>[0, 1]\<close>, the descending ranking
  puts the item of position 1 first, and if it returns \<open>[1, 0]\<close>, the ascending ranking does.
\<close>

theorem words_by_score_tie_counterexample:
  "is_argsort [1, 1] [0, 1]
   \<and> words_by_score_with [0, 1] [''a'', ''b''] [1, 1] False None = Inr [''b'', ''a'']
   \<and> \<not> comes_before 0 1 (directed [0, 1] False)
   \<and> is_argsort [1, 1] [1, 0]
   \<and> words_by_score_with [1, 0] [''a'', ''b''] [1, 1] True None = Inr [''b'', ''a'']
   \<and> \<not> comes_before 0 1 (directed [1, 0] True)
   \<and> filter (is_argsort [1, 1]) (List.n_lists 2 [0, 1]) = [[1, 0], [0, 1]]"
  by (simp add: is_argsort_def words_by_score_with_def directed_def upt_rec numeral_2_eq_2)


section \<open>Relevant words of a topic\<close>

lemma relevant_words_out_of_range:
  assumes "\<not> (0 \<le> topic \<and> topic < int (shape0 rel_mat))"
  shows "relevant_words_for_topic b vocab rel_mat topic n = Inl ValueError"
  using assms
  by (simp add: relevant_words_for_topic_def check_relevant_words_for_topic_args_def)

text \<open>
  C4 (amended): for a two-dimensional relevance matrix whose column count is the length of
  the vocabulary and a topic index outside \<open>[0, number of rows)\<close>, both
  \<open>get_most_relevant_words_for_topic\<close> and \<open>get_least_relevant_words_for_topic\<close> fail with
  ValueError: the argument check rejects the index before the matrix is indexed.
\<close>

theorem relevant_words_topic_out_of_range:
  assumes "is_2d rel_mat" "length vocab = shape1 rel_mat"
    and "topic < 0 \<or> int (shape0 rel_mat) \<le> topic"
  shows "get_most_relevant_words_for_topic vocab rel_mat topic n = Inl ValueError
       \<and> get_least_relevant_words_for_topic vocab rel_mat topic n = Inl ValueError"
proof -
  have "\<not> (0 \<le> topic \<and> topic < int (shape0 rel_mat))"
    using assms(3) by auto
  then show ?thesis
    by (simp add: get_most_relevant_words_for_topic_def get_least_relevant_words_for_topic_def
        relevant_words_out_of_range)
qed

theorem relevant_words_topic_out_of_range_witness:
  "get_most_relevant_words_for_topic [''a'', ''b''] (array2 2 [[1, 2]]) (- 1) None = Inl ValueError
   \<and> get_least_relevant_words_for_topic [''a'', ''b''] (array2 2 [[1, 2]]) (- 1) None
       = Inl ValueError"
  using relevant_words_topic_out_of_range [of "array2 2 [[1, 2]]" "[''a'', ''b'']" "- 1" None]
  by (simp add: is_2d_def array2_def shape0_def)

text \<open>
  C4 as stated fails: for the topic index 1 on a matrix of one row the failure is a
  ValueError, not an IndexError.
\<close>

theorem relevant_words_index_error_counterexample:
  "get_most_relevant_words_for_topic [''a''] (array2 1 [[0]]) 1 None \<noteq> Inl IndexError
   \<and> get_least_relevant_words_for_topic [''a''] (array2 1 [[0]]) 1 None \<noteq> Inl IndexError"
  by (simp add: get_most_relevant_words_for_topic_def get_least_relevant_words_for_topic_def
      relevant_words_for_topic_def check_relevant_words_for_topic_args_def array2_def shape0_def)


section \<open>Term proportions\<close>

lemma column_sums_total:
  fixes rs :: "'a::comm_monoid_add list list"
  assumes "\<forall>r\<in>set rs. length r = c"
  shows "sum_list (map (\<lambda>j. sum_list (map (\<lambda>r. r ! j) rs)) [0..<c]) = sum_list (map sum_list rs)"
  using assms
proof (induction rs)
  case Nil
  show ?case by simp
next
  case (Cons r rs)
  then have len: "length r = c" and rest: "\<forall>r\<in>set rs. length r = c" by simp_all
  have "sum_list (map (\<lambda>j. sum_list (map (\<lambda>r. r ! j) (r # rs))) [0..<c])
      = sum_list (map (\<lambda>j. r ! j) [0..<c]) + sum_list (map (\<lambda>j. sum_list (map (\<lambda>r. r ! j) rs)) [0..<c])"
    by (simp add: sum_list_addf)
  also have "map (\<lambda>j. r ! j) [0..<c] = r"
    using len map_nth [of r] by simp
  finally show ?case
    using Cons.IH [OF rest] by simp
qed

lemma sum_list_normalised:
  fixes xs :: "int list"
  assumes "t \<noteq> 0" "sum_list xs = t"
  shows "sum_list (map (\<lambda>x. real_of_int x / real_of_int t) xs) = 1"
proof -
  have "sum_list (map (\<lambda>x. real_of_int x / real_of_int t) xs)
      = sum_list (map (\<lambda>x. real_of_int x * (1 / real_of_int t)) xs)"
    by simp
  also have "\<dots> = sum_list (map real_of_int xs) * (1 / real_of_int t)"
    by (simp only: sum_list_mult_const [symmetric] map_map o_def)
  also have "sum_list (map real_of_int xs) = real_of_int (sum_list xs)"
    by (induction xs) simp_all
  finally show ?thesis using assms by simp
qed

lemma total_zero_iff:
  assumes "nonneg_entries a"
  shows "np_sum_all a = 0 \<longleftrightarrow> all_zero a"
proof -
  have rows_nonneg: "\<And>r. r \<in> set (rows a) \<Longrightarrow> 0 \<le> sum_list r"
    using assms by (auto simp: nonneg_entries_def list_all_iff intro: sum_list_nonneg)
  have "np_sum_all a = 0 \<longleftrightarrow> (\<forall>r\<in>set (rows a). sum_list r = 0)"
    unfolding np_sum_all_def using rows_nonneg
    by (subst sum_list_nonneg_eq_0_iff) auto
  also have "\<dots> \<longleftrightarrow> (\<forall>r\<in>set (rows a). \<forall>x\<in>set r. x = 0)"
    using assms
    by (auto simp: nonneg_entries_def list_all_iff sum_list_nonneg_eq_0_iff)
  finally show ?thesis by (simp add: all_zero_def list_all_iff)
qed

lemma wrap64_id:
  assumes "0 \<le> x" "x < 2 ^ 63"
  shows "wrap64 x = x"
  using assms by (simp add: wrap64_def)

lemma member_le_sum_list_int:
  fixes xs :: "int list"
  assumes "\<forall>x\<in>set xs. 0 \<le> x" "y \<in> set xs"
  shows "y \<le> sum_list xs"
  using assms
proof (induction xs)
  case Nil
  then show ?case by simp
next
  case (Cons x xs)
  have nn: "0 \<le> sum_list xs" using Cons.prems(1) by (simp add: sum_list_nonneg)
  show ?case
  proof (cases "y = x")
    case True
    then show ?thesis using nn by simp
  next
    case False
    then have "y \<le> sum_list xs" using Cons by simp
    then show ?thesis using Cons.prems(1) by simp
  qed
qed

text \<open>
  Without negative entries and with fewer than \<open>2^63\<close> tokens no sum wraps around: the
  term frequencies are the column sums and their sum is the number of tokens.
\<close>

lemma int64_sums_exact:
  assumes "is_2d a" "nonneg_entries a" "np_sum_all a < 2 ^ 63"
  shows "int64_sum_axis0 a = map (\<lambda>j. sum_list (map (\<lambda>r. r ! j) (rows a))) [0..<shape1 a]"
    and "int64_sum (int64_sum_axis0 a) = np_sum_all a"
proof -
  let ?cols = "map (\<lambda>j. sum_list (map (\<lambda>r. r ! j) (rows a))) [0..<shape1 a]"
  have len: "\<forall>r\<in>set (rows a). length r = shape1 a"
    using assms(1) by (simp add: is_2d_def list_all_iff)
  have tot: "sum_list ?cols = np_sum_all a"
    using column_sums_total [OF len] by (simp add: np_sum_all_def)
  have nonneg: "\<forall>c\<in>set ?cols. 0 \<le> c"
  proof
    fix c assume "c \<in> set ?cols"
    then obtain j where j: "j < shape1 a" and c: "c = sum_list (map (\<lambda>r. r ! j) (rows a))"
      by auto
    have "\<forall>x\<in>set (map (\<lambda>r. r ! j) (rows a)). 0 \<le> x"
      using assms(2) len j by (auto simp: nonneg_entries_def list_all_iff)
    then have "\<And>x. x \<in> set (map (\<lambda>r. r ! j) (rows a)) \<Longrightarrow> 0 \<le> x" by blast
    then show "0 \<le> c" unfolding c by (rule sum_list_nonneg)
  qed
  have small: "\<forall>c\<in>set ?cols. c < 2 ^ 63"
  proof
    fix c assume m: "c \<in> set ?cols"
    have "c \<le> sum_list ?cols" using nonneg m by (rule member_le_sum_list_int)
    then show "c < 2 ^ 63" using tot assms(3) by simp
  qed
  have "map wrap64 ?cols = ?cols"
    using nonneg small by (intro map_idI wrap64_id) auto
  then show cols: "int64_sum_axis0 a = ?cols"
    by (simp add: int64_sum_axis0_def int64_sum_def o_def)
  have "0 \<le> np_sum_all a" using nonneg tot sum_list_nonneg [of ?cols] by auto
  then show "int64_sum (int64_sum_axis0 a) = np_sum_all a"
    using tot assms(3) by (simp only: cols int64_sum_def wrap64_id)
qed

text \<open>
  C6 (amended): for a two-dimensional document-term matrix without negative entries and
  with fewer than \<open>2^63\<close> tokens, \<open>get_term_proportions\<close> returns one proportion per column
  and they sum to 1 (as exact quotients) whenever the total count is positive; it raises
  ValueError if and only if the total is zero, which is the case exactly for the all-zero
  matrix.
\<close>

theorem get_term_proportions_sum:
  assumes "is_2d dtm" "nonneg_entries dtm" "np_sum_all dtm < 2 ^ 63"
  shows "(0 < np_sum_all dtm \<longrightarrow>
            (\<exists>ps. get_term_proportions dtm = Inr ps \<and> length ps = shape1 dtm \<and> sum_list ps = 1))
       \<and> (get_term_proportions dtm = Inl ValueError \<longleftrightarrow> np_sum_all dtm = 0)
       \<and> (np_sum_all dtm = 0 \<longleftrightarrow> all_zero dtm)"
proof -
  let ?cols = "map (\<lambda>j. sum_list (map (\<lambda>r. r ! j) (rows dtm))) [0..<shape1 dtm]"
  have nd: "ndim dtm = 2" using assms(1) by (simp add: is_2d_def)
  have cols: "int64_sum_axis0 dtm = ?cols"
    and tot: "int64_sum (int64_sum_axis0 dtm) = np_sum_all dtm"
    using assms by (rule int64_sums_exact)+
  have len: "\<forall>r\<in>set (rows dtm). length r = shape1 dtm"
    using assms(1) by (simp add: is_2d_def list_all_iff)
  have sum: "sum_list (int64_sum_axis0 dtm) = np_sum_all dtm"
    using column_sums_total [OF len] by (simp add: cols np_sum_all_def)
  have a: "0 < np_sum_all dtm \<longrightarrow>
            (\<exists>ps. get_term_proportions dtm = Inr ps \<and> length ps = shape1 dtm \<and> sum_list ps = 1)"
  proof
    assume "0 < np_sum_all dtm"
    then have ne: "np_sum_all dtm \<noteq> 0" by simp
    then have "get_term_proportions dtm
        = Inr (map (\<lambda>x. real_of_int x / real_of_int (np_sum_all dtm)) (int64_sum_axis0 dtm))"
      using nd tot by (simp add: get_term_proportions_def get_term_frequencies_def)
    moreover have "length (int64_sum_axis0 dtm) = shape1 dtm" by (simp add: int64_sum_axis0_def)
    ultimately show "\<exists>ps. get_term_proportions dtm = Inr ps \<and> length ps = shape1 dtm \<and> sum_list ps = 1"
      using sum_list_normalised [OF ne sum] by simp
  qed
  have b: "get_term_proportions dtm = Inl ValueError \<longleftrightarrow> np_sum_all dtm = 0"
    using nd tot by (simp add: get_term_proportions_def get_term_frequencies_def)
  show ?thesis using a b total_zero_iff [OF assms(2)] by blast
qed

theorem get_term_proportions_sum_witness:
  "(\<exists>ps. get_term_proportions (array2 3 [[1, 0, 2], [0, 1, 1], [1, 1, 0]]) = Inr ps
         \<and> length ps = 3 \<and> sum_list ps = 1)
   \<and> get_term_proportions (array2 2 [[0, 0]]) = Inl ValueError"
  using get_term_proportions_sum [of "array2 3 [[1, 0, 2], [0, 1, 1], [1, 1, 0]]"]
    get_term_proportions_sum [of "array2 2 [[0, 0]]"]
  by (simp add: is_2d_def nonneg_entries_def np_sum_all_def array2_def)

text \<open>
  C6 as stated fails where the \<^verbatim>\<open>int64\<close> total wraps around. A matrix with the single row
  \<open>[2^62, 2^62, 2^62, 2^62]\<close> has no negative entry and \<open>2^64\<close> tokens; the total that the
  code computes is 0 and it raises ValueError. With the single row \<open>[2^62, 2^62]\<close> the
  computed total is \<open>- 2^63\<close>, and the proportions returned are \<open>- 1/2\<close> twice: they sum
  to \<open>- 1\<close>.
\<close>

theorem get_term_proportions_overflow_counterexample:
  "is_2d (array2 4 [[2 ^ 62, 2 ^ 62, 2 ^ 62, 2 ^ 62]])
   \<and> nonneg_entries (array2 4 [[2 ^ 62, 2 ^ 62, 2 ^ 62, 2 ^ 62]])
   \<and> 0 < np_sum_all (array2 4 [[2 ^ 62, 2 ^ 62, 2 ^ 62, 2 ^ 62 :: int]])
   \<and> \<not> all_zero (array2 4 [[2 ^ 62, 2 ^ 62, 2 ^ 62, 2 ^ 62]])
   \<and> get_term_proportions (array2 4 [[2 ^ 62, 2 ^ 62, 2 ^ 62, 2 ^ 62]]) = Inl ValueError
   \<and> is_2d (array2 2 [[2 ^ 62, 2 ^ 62 :: int]])
   \<and> nonneg_entries (array2 2 [[2 ^ 62, 2 ^ 62]])
   \<and> 0 < np_sum_all (array2 2 [[2 ^ 62, 2 ^ 62 :: int]])
   \<and> get_term_proportions (array2 2 [[2 ^ 62, 2 ^ 62]]) = Inr [- 1 / 2, - 1 / 2]
   \<and> sum_list [- 1 / 2, - 1 / 2 :: real] = - 1"
  by (simp add: is_2d_def nonneg_entries_def all_zero_def np_sum_all_def array2_def
      get_term_proportions_def get_term_frequencies_def int64_sum_axis0_def int64_sum_def
      wrap64_def upt_rec)


section \<open>Co-document frequencies\<close>

lemma length_combinations2: "length (combinations2 xs) = length xs choose 2"
  by (induction xs) (simp_all add: numeral_2_eq_2)

lemma set_combinations2_fst: "(a, b) \<in> set (combinations2 xs) \<Longrightarrow> a \<in> set xs \<and> b \<in> set xs"
  by (induction xs) auto

lemma distinct_combinations2: "distinct xs \<Longrightarrow> distinct (combinations2 xs)"
proof (induction xs)
  case Nil
  show ?case by simp
next
  case (Cons x xs)
  have "distinct (map (Pair x) xs)"
    using Cons.prems by (simp add: distinct_map inj_on_def)
  moreover have "set (map (Pair x) xs) \<inter> set (combinations2 xs) = {}"
    using Cons.prems by (auto dest: set_combinations2_fst)
  ultimately show ?case using Cons by simp
qed

lemma set_combinations2_sorted:
  "sorted_wrt (<) xs \<Longrightarrow> set (combinations2 xs) = {(a, b). a \<in> set xs \<and> b \<in> set xs \<and> a < b}"
  for xs :: "nat list"
  by (induction xs) (auto dest: set_combinations2_fst)

lemma set_combinations2_upt:
  "set (combinations2 [0..<n]) = {(w1, w2). w1 < w2 \<and> w2 < n}"
  by (subst set_combinations2_sorted) auto

lemma update_fresh:
  "k \<notin> fst ` set al \<Longrightarrow> AList.update k v al = al @ [(k, v)]"
  by (induction al) auto

lemma fold_update_distinct:
  assumes "distinct ps" "set ps \<inter> fst ` set al = {}"
  shows "fold (\<lambda>(a, b). AList.update (a, b) (g a b)) ps al
       = al @ map (\<lambda>(a, b). ((a, b), g a b)) ps"
  using assms
proof (induction ps arbitrary: al)
  case Nil
  show ?case by simp
next
  case (Cons p ps)
  obtain a b where p: "p = (a, b)" by (cases p)
  have fresh: "(a, b) \<notin> fst ` set al" using Cons.prems(2) p by auto
  have "set ps \<inter> fst ` set (al @ [((a, b), g a b)]) = {}"
    using Cons.prems p by auto
  with Cons.IH [of "al @ [((a, b), g a b)]"] Cons.prems(1) show ?case
    by (simp add: p update_fresh [OF fresh])
qed

lemma map_fst_pairs: "map fst (map (\<lambda>(a, b). ((a, b), g a b)) ps) = ps"
  by (induction ps) auto

lemma get_codoc_frequencies_eq:
  assumes "ndim dtm = 2" "2 \<le> shape1 dtm"
  shows "get_codoc_frequencies dtm min_val proportions
       = Inr (map (\<lambda>(w1, w2). ((w1, w2),
                     codoc_value (map (map (\<lambda>x. x \<ge> min_val)) (rows dtm)) (shape0 dtm)
                       proportions w1 w2))
                (combinations2 [0..<shape1 dtm]))"
proof -
  have "distinct (combinations2 [0..<shape1 dtm])"
    by (simp add: distinct_combinations2)
  then show ?thesis
    using assms by (simp add: get_codoc_frequencies_def Let_def fold_update_distinct)
qed

lemma codoc_value_unit:
  assumes "0 < length w"
  shows "in_unit_interval (codoc_value w (length w) True w1 w2)"
proof -
  let ?f = "length (filter id (map2 (\<and>) (map (\<lambda>r. r ! w1) w) (map (\<lambda>r. r ! w2) w)))"
  have "?f \<le> length (map2 (\<and>) (map (\<lambda>r. r ! w1) w) (map (\<lambda>r. r ! w2) w))"
    by (rule length_filter_le)
  then have "?f \<le> length w" by simp
  then have "real ?f / real (length w) \<le> 1" using assms by simp
  then show ?thesis
    using assms by (simp add: codoc_value_def true_divide_def in_unit_interval_def Let_def)
qed

text \<open>
  C7 (amended): for a two-dimensional document-term matrix with \<open>v \<ge> 2\<close> columns,
  \<open>get_codoc_frequencies\<close> returns a dictionary of exactly \<open>C(v, 2)\<close> entries whose keys are
  pairwise different and are the pairs \<open>(w1, w2)\<close> with \<open>w1 < w2 < v\<close>; with \<open>min_val = 1\<close>,
  \<open>proportions = True\<close> and at least one document (row) every value lies in \<open>[0, 1]\<close>;
  with \<open>v < 2\<close> it fails with ValueError.
\<close>

theorem get_codoc_frequencies_entries:
  assumes "is_2d dtm"
  shows "(2 \<le> shape1 dtm \<longrightarrow>
           (\<exists>d. get_codoc_frequencies dtm min_val proportions = Inr d
              \<and> length d = shape1 dtm choose 2
              \<and> distinct (map fst d)
              \<and> set (map fst d) = {(w1, w2). w1 < w2 \<and> w2 < shape1 dtm}))
       \<and> (2 \<le> shape1 dtm \<and> 0 < shape0 dtm \<longrightarrow>
           (\<exists>d. get_codoc_frequencies dtm 1 True = Inr d
              \<and> list_all (\<lambda>(k, v). in_unit_interval v) d))
       \<and> (shape1 dtm < 2 \<longrightarrow> get_codoc_frequencies dtm min_val proportions = Inl ValueError)"
proof -
  have nd: "ndim dtm = 2" using assms by (simp add: is_2d_def)
  have a: "2 \<le> shape1 dtm \<longrightarrow>
           (\<exists>d. get_codoc_frequencies dtm min_val proportions = Inr d
              \<and> length d = shape1 dtm choose 2
              \<and> distinct (map fst d)
              \<and> set (map fst d) = {(w1, w2). w1 < w2 \<and> w2 < shape1 dtm})"
  proof
    assume v: "2 \<le> shape1 dtm"
    let ?g = "codoc_value (map (map (\<lambda>x. x \<ge> min_val)) (rows dtm)) (shape0 dtm) proportions"
    let ?ps = "combinations2 [0..<shape1 dtm]"
    let ?d = "map (\<lambda>(w1, w2). ((w1, w2), ?g w1 w2)) ?ps"
    have keys: "map fst ?d = ?ps"
      by (rule map_fst_pairs)
    have "get_codoc_frequencies dtm min_val proportions = Inr ?d"
      using nd v by (rule get_codoc_frequencies_eq)
    moreover have "length ?d = shape1 dtm choose 2"
      by (simp add: length_combinations2)
    moreover have "distinct (map fst ?d)"
      by (simp only: keys) (simp add: distinct_combinations2)
    moreover have "set (map fst ?d) = {(w1, w2). w1 < w2 \<and> w2 < shape1 dtm}"
      by (simp only: keys set_combinations2_upt)
    ultimately show "\<exists>d. get_codoc_frequencies dtm min_val proportions = Inr d
              \<and> length d = shape1 dtm choose 2
              \<and> distinct (map fst d)
              \<and> set (map fst d) = {(w1, w2). w1 < w2 \<and> w2 < shape1 dtm}"
      by blast
  qed
  have b: "2 \<le> shape1 dtm \<and> 0 < shape0 dtm \<longrightarrow>
           (\<exists>d. get_codoc_frequencies dtm 1 True = Inr d
              \<and> list_all (\<lambda>(k, v). in_unit_interval v) d)"
  proof
    assume h: "2 \<le> shape1 dtm \<and> 0 < shape0 dtm"
    let ?w = "map (map (\<lambda>x. x \<ge> 1)) (rows dtm)"
    have "shape0 dtm = length ?w" by (simp add: shape0_def)
    moreover have "0 < length ?w" using h by (simp add: shape0_def)
    ultimately have "\<And>w1 w2. in_unit_interval (codoc_value ?w (shape0 dtm) True w1 w2)"
      using codoc_value_unit [of ?w] by simp
    then show "\<exists>d. get_codoc_frequencies dtm 1 True = Inr d
              \<and> list_all (\<lambda>(k, v). in_unit_interval v) d"
      using h by (simp add: get_codoc_frequencies_eq [OF nd] list_all_iff case_prod_beta)
  qed
  have c: "shape1 dtm < 2 \<longrightarrow> get_codoc_frequencies dtm min_val proportions = Inl ValueError"
    using nd by (simp add: get_codoc_frequencies_def)
  from a b c show ?thesis by blast
qed

theorem get_codoc_frequencies_entries_witness:
  "(\<exists>d. get_codoc_frequencies (array2 3 [[1, 0, 2], [0, 1, 1], [1, 1, 0]]) 1 True = Inr d
        \<and> length d = 3 choose 2
        \<and> distinct (map fst d)
        \<and> set (map fst d) = {(w1, w2). w1 < w2 \<and> w2 < 3})
   \<and> (\<exists>d. get_codoc_frequencies (array2 3 [[1, 0, 2], [0, 1, 1], [1, 1, 0]]) 1 True = Inr d
        \<and> list_all (\<lambda>(k, v). in_unit_interval v) d)
   \<and> get_codoc_frequencies (array2 1 [[1], [0]]) 1 True = Inl ValueError"
  using get_codoc_frequencies_entries [of "array2 3 [[1, 0, 2], [0, 1, 1], [1, 1, 0]]" 1 True]
    get_codoc_frequencies_entries [of "array2 1 [[1], [0]]" 1 True]
  by (simp add: is_2d_def array2_def shape0_def)

text \<open>
  C7 as stated fails on a matrix without rows: with \<open>proportions = True\<close> the count 0 is
  divided by the document count 0, and the value stored for the pair is NaN.
\<close>

theorem get_codoc_frequencies_no_documents_counterexample:
  "get_codoc_frequencies (array2 2 []) 1 True = Inr [((0, 1), FloatNaN)]
   \<and> \<not> in_unit_interval FloatNaN"
  by (simp add: get_codoc_frequencies_def array2_def shape0_def codoc_value_def true_divide_def
      in_unit_interval_def upt_rec)


section \<open>Relevance\<close>

lemma bdim_same: "bdim n n = Some n"
  by (simp add: bdim_def)

lemma bidx_less: "j < m \<Longrightarrow> bidx m j = j"
  by (auto simp: bidx_def)

lemma map_bidx_vec:
  "map (\<lambda>j. f (r ! bidx c j) (v ! bidx c j)) [0..<c] = map (\<lambda>j. f (r ! j) (v ! j)) [0..<c]"
  by (rule map_cong [OF refl]) (simp add: bidx_less)

lemma map_bidx_mat:
  "map (\<lambda>i. map (\<lambda>j. f (ra ! bidx r i ! bidx c j) (rb ! bidx r i ! bidx c j)) [0..<c]) [0..<r]
 = map (\<lambda>i. map (\<lambda>j. f (ra ! i ! j) (rb ! i ! j)) [0..<c]) [0..<r]"
  by (rule map_cong [OF refl], rule map_cong [OF refl]) (simp add: bidx_less)

lemma broadcast_vec_same:
  assumes "length v = shape1 a"
  shows "broadcast_vec f a v
       = Inr (array2 (shape1 a) (map (\<lambda>r. map (\<lambda>j. f (r ! j) (v ! j)) [0..<shape1 a]) (rows a)))"
  by (simp add: broadcast_vec_def assms bdim_same map_bidx_vec)

lemma broadcast_mat_same:
  assumes "shape0 b = shape0 a" "shape1 b = shape1 a"
  shows "broadcast_mat f a b
       = Inr (array2 (shape1 a)
           (map (\<lambda>i. map (\<lambda>j. f (rows a ! i ! j) (rows b ! i ! j)) [0..<shape1 a]) [0..<shape0 a]))"
  by (simp add: broadcast_mat_def assms bdim_same map_bidx_mat)

lemma shape_array2 [simp]:
  "shape0 (array2 c rs) = length rs" "shape1 (array2 c rs) = c" "rows (array2 c rs) = rs"
  "ndim (array2 c rs) = 2"
  by (simp_all add: array2_def shape0_def)

lemma np_T_simps [simp]:
  "shape0 (np_T a) = shape1 a" "shape1 (np_T a) = shape0 a"
  "rows (np_T a) = map (\<lambda>j. map (\<lambda>r. r ! j) (rows a)) [0..<shape1 a]"
  by (simp_all add: np_T_def)

lemma np_log_simps [simp]:
  "shape0 (np_log a) = shape0 a" "shape1 (np_log a) = shape1 a"
  "rows (np_log a) = map (map ln) (rows a)"
  by (simp_all add: np_log_def shape0_def)

lemma np_scale_simps [simp]:
  "shape0 (np_scale c a) = shape0 a" "shape1 (np_scale c a) = shape1 a"
  "rows (np_scale c a) = map (map (\<lambda>x. c * x)) (rows a)"
  by (simp_all add: np_scale_def shape0_def)

lemma get_marginal_topic_distrib_shape:
  assumes "length doc_lengths = shape0 theta"
  shows "\<exists>p_t. get_marginal_topic_distrib theta doc_lengths = Inr p_t \<and> length p_t = shape1 theta"
  using assms
  by (simp add: get_marginal_topic_distrib_def broadcast_vec_same np_sum_axis1_def Let_def)

lemma get_marginal_word_distrib_shape:
  assumes "length p_t = shape0 phi"
  shows "\<exists>p_w. get_marginal_word_distrib phi p_t = Inr p_w \<and> length p_w = shape1 phi"
  using assms
  by (simp add: get_marginal_word_distrib_def broadcast_vec_same np_sum_axis1_def)

lemma rebuild_rows:
  assumes "is_2d a"
  shows "map (\<lambda>i. map (\<lambda>j. f (rows a ! i ! j)) [0..<shape1 a]) [0..<shape0 a] = map (map f) (rows a)"
proof (rule nth_equalityI)
  show "length (map (\<lambda>i. map (\<lambda>j. f (rows a ! i ! j)) [0..<shape1 a]) [0..<shape0 a])
      = length (map (map f) (rows a))"
    by (simp add: shape0_def)
next
  fix i
  assume "i < length (map (\<lambda>i. map (\<lambda>j. f (rows a ! i ! j)) [0..<shape1 a]) [0..<shape0 a])"
  then have i: "i < length (rows a)" by (simp add: shape0_def)
  then have len: "length (rows a ! i) = shape1 a"
    using assms by (simp add: is_2d_def list_all_length)
  have "map (\<lambda>j. f (rows a ! i ! j)) [0..<shape1 a] = map f (rows a ! i)"
    by (rule nth_equalityI) (simp_all add: len)
  then show "map (\<lambda>i. map (\<lambda>j. f (rows a ! i ! j)) [0..<shape1 a]) [0..<shape0 a] ! i
           = map (map f) (rows a) ! i"
    using i by (simp add: shape0_def)
qed

text \<open>The relevance matrix on inputs of matching shapes, entry by entry.\<close>

lemma get_topic_word_relevance_entries:
  assumes "matching_shapes phi theta doc_lengths"
  shows "\<exists>p_w. length p_w = shape1 phi \<and>
           get_topic_word_relevance phi theta doc_lengths lambda
         = Inr (array2 (shape1 phi)
             (map (\<lambda>i. map (\<lambda>j. lambda * ln (rows phi ! i ! j)
                                   + (1 - lambda) * ln (rows phi ! i ! j / p_w ! j))
                          [0..<shape1 phi]) [0..<shape0 phi]))"
proof -
  from assms have 2: "is_2d phi" and sh: "shape1 theta = shape0 phi"
    and dl: "length doc_lengths = shape0 theta"
    by (simp_all add: matching_shapes_def)
  obtain p_t where pt: "get_marginal_topic_distrib theta doc_lengths = Inr p_t"
    and lpt: "length p_t = shape1 theta"
    using get_marginal_topic_distrib_shape [OF dl] by blast
  obtain p_w where pw: "get_marginal_word_distrib phi p_t = Inr p_w"
    and lpw: "length p_w = shape1 phi"
    using get_marginal_word_distrib_shape [of p_t phi] lpt sh by auto
  let ?q = "array2 (shape1 phi) (map (\<lambda>r. map (\<lambda>j. r ! j / p_w ! j) [0..<shape1 phi]) (rows phi))"
  have q: "broadcast_vec (/) phi p_w = Inr ?q"
    using lpw by (rule broadcast_vec_same)
  have entry: "\<And>i j. i < shape0 phi \<Longrightarrow> j < shape1 phi \<Longrightarrow>
      lambda * ln (rows phi ! i ! j) + (1 - lambda) * ln (rows phi ! i ! j / p_w ! j)
      = rows (np_scale lambda (np_log phi)) ! i ! j + rows (np_scale (1 - lambda) (np_log ?q)) ! i ! j"
  proof -
    fix i j assume i: "i < shape0 phi" and j: "j < shape1 phi"
    then have "j < length (rows phi ! i)"
      using 2 by (simp add: is_2d_def list_all_length shape0_def)
    then show "lambda * ln (rows phi ! i ! j) + (1 - lambda) * ln (rows phi ! i ! j / p_w ! j)
      = rows (np_scale lambda (np_log phi)) ! i ! j + rows (np_scale (1 - lambda) (np_log ?q)) ! i ! j"
      using i j by (simp add: shape0_def)
  qed
  have "broadcast_mat (+) (np_scale lambda (np_log phi)) (np_scale (1 - lambda) (np_log ?q))
      = Inr (array2 (shape1 phi)
          (map (\<lambda>i. map (\<lambda>j. rows (np_scale lambda (np_log phi)) ! i ! j
                              + rows (np_scale (1 - lambda) (np_log ?q)) ! i ! j)
                  [0..<shape1 phi]) [0..<shape0 phi]))"
    by (subst broadcast_mat_same) (simp_all add: shape0_def)
  also have "\<dots> = Inr (array2 (shape1 phi)
             (map (\<lambda>i. map (\<lambda>j. lambda * ln (rows phi ! i ! j)
                                   + (1 - lambda) * ln (rows phi ! i ! j / p_w ! j))
                          [0..<shape1 phi]) [0..<shape0 phi]))"
    using entry by (simp cong: map_cong)
  finally have "get_topic_word_relevance phi theta doc_lengths lambda
         = Inr (array2 (shape1 phi)
             (map (\<lambda>i. map (\<lambda>j. lambda * ln (rows phi ! i ! j)
                                   + (1 - lambda) * ln (rows phi ! i ! j / p_w ! j))
                          [0..<shape1 phi]) [0..<shape0 phi]))"
    by (simp add: get_topic_word_relevance_def pt pw q Let_def)
  with lpw show ?thesis by blast
qed

lemma np_log_array2:
  assumes "is_2d a"
  shows "np_log a = array2 (shape1 a) (map (map ln) (rows a))"
  using assms by (simp add: np_log_def array2_def is_2d_def)

lemma relevance_lambda_1:
  assumes "matching_shapes phi theta doc_lengths"
  shows "get_topic_word_relevance phi theta doc_lengths 1 = Inr (np_log phi)"
proof -
  have 2: "is_2d phi" using assms by (simp add: matching_shapes_def)
  from get_topic_word_relevance_entries [OF assms, of 1]
  have "get_topic_word_relevance phi theta doc_lengths 1
      = Inr (array2 (shape1 phi)
          (map (\<lambda>i. map (\<lambda>j. ln (rows phi ! i ! j)) [0..<shape1 phi]) [0..<shape0 phi]))"
    by auto
  then show ?thesis
    by (simp add: rebuild_rows [OF 2] np_log_array2 [OF 2])
qed



section \<open>Topic labels\<close>

lemma of_char_digit: "d < 10 \<Longrightarrow> (of_char (digit_char d) :: nat) = 48 + d"
  by (simp add: digit_char_def)

lemma digit_char_inj:
  assumes "a < 10" "b < 10" "digit_char a = digit_char b"
  shows "a = b"
proof -
  have "(of_char (digit_char a) :: nat) = of_char (digit_char b)"
    by (simp only: assms(3))
  then have "48 + a = 48 + b"
    by (simp only: of_char_digit [OF assms(1)] of_char_digit [OF assms(2)])
  then show ?thesis by simp
qed

lemma digit_char_not_underscore:
  assumes "d < 10"
  shows "digit_char d \<noteq> CHR ''_''"
proof
  assume "digit_char d = CHR ''_''"
  then have "(of_char (digit_char d) :: nat) = of_char (CHR ''_'')" by (simp only:)
  then have "48 + d = (of_char (CHR ''_'') :: nat)"
    by (simp only: of_char_digit [OF assms])
  then show False using assms by simp
qed

lemma str_of_nat_small: "n < 10 \<Longrightarrow> str_of_nat n = [digit_char n]"
  by (subst str_of_nat.simps) simp

lemma str_of_nat_large:
  "10 \<le> n \<Longrightarrow> str_of_nat n = str_of_nat (n div 10) @ [digit_char (n mod 10)]"
  by (subst str_of_nat.simps) simp

lemma str_of_nat_nonempty: "str_of_nat n \<noteq> []"
  by (subst str_of_nat.simps) simp

lemma underscore_notin_str_of_nat: "CHR ''_'' \<notin> set (str_of_nat n)"
proof (induction n rule: str_of_nat.induct)
  case (1 n)
  show ?case
  proof (cases "n < 10")
    case True
    have "digit_char n \<noteq> CHR ''_''" using True by (rule digit_char_not_underscore)
    then show ?thesis by (simp only: str_of_nat_small [OF True]) auto
  next
    case False
    then have ge: "10 \<le> n" by simp
    have "CHR ''_'' \<notin> set (str_of_nat (n div 10))" using 1 False by blast
    moreover have "digit_char (n mod 10) \<noteq> CHR ''_''"
      by (rule digit_char_not_underscore) simp
    ultimately show ?thesis by (simp only: str_of_nat_large [OF ge]) auto
  qed
qed

lemma snoc_eq_single: "xs @ [a] = [b] \<Longrightarrow> xs = []"
  by (cases xs) auto

lemma str_of_nat_inj: "str_of_nat m = str_of_nat n \<Longrightarrow> m = n"
proof (induction m arbitrary: n rule: str_of_nat.induct)
  case (1 m)
  note eq = \<open>str_of_nat m = str_of_nat n\<close>
  show ?case
  proof (cases "m < 10")
    case m: True
    show ?thesis
    proof (cases "n < 10")
      case True
      have "[digit_char m] = [digit_char n]"
        using eq by (simp only: str_of_nat_small [OF m] str_of_nat_small [OF True])
      then have "digit_char m = digit_char n" by simp
      with m True show ?thesis by (rule digit_char_inj)
    next
      case False
      then have ge: "10 \<le> n" by simp
      have "[digit_char m] = str_of_nat (n div 10) @ [digit_char (n mod 10)]"
        using eq by (simp only: str_of_nat_small [OF m] str_of_nat_large [OF ge])
      then have "str_of_nat (n div 10) = []" by (metis snoc_eq_single)
      then show ?thesis using str_of_nat_nonempty by blast
    qed
  next
    case m: False
    then have gem: "10 \<le> m" by simp
    show ?thesis
    proof (cases "n < 10")
      case True
      have "str_of_nat (m div 10) @ [digit_char (m mod 10)] = [digit_char n]"
        using eq by (simp only: str_of_nat_small [OF True] str_of_nat_large [OF gem])
      then have "str_of_nat (m div 10) = []" by (rule snoc_eq_single)
      then show ?thesis using str_of_nat_nonempty by blast
    next
      case False
      then have ge: "10 \<le> n" by simp
      have "str_of_nat (m div 10) @ [digit_char (m mod 10)]
          = str_of_nat (n div 10) @ [digit_char (n mod 10)]"
        using eq by (simp only: str_of_nat_large [OF gem] str_of_nat_large [OF ge])
      then have e: "str_of_nat (m div 10) = str_of_nat (n div 10)"
        and d: "digit_char (m mod 10) = digit_char (n mod 10)"
        by simp_all
      have "m div 10 = n div 10" using m e by (rule 1(1))
      moreover have "m mod 10 = n mod 10"
      proof (rule digit_char_inj)
        show "m mod 10 < 10" by simp
        show "n mod 10 < 10" by simp
        show "digit_char (m mod 10) = digit_char (n mod 10)" by (rule d)
      qed
      ultimately have "m div 10 * 10 + m mod 10 = n div 10 * 10 + n mod 10" by simp
      then show ?thesis by (simp only: div_mult_mod_eq)
    qed
  qed
qed

lemma prefix_before_separator:
  assumes "x \<notin> set xs" "x \<notin> set xs'" "xs @ x # ys = xs' @ x # ys'"
  shows "xs = xs'"
  using assms
proof (induction xs arbitrary: xs')
  case Nil
  then show ?case by (cases xs') auto
next
  case (Cons a as)
  then show ?case by (cases xs') auto
qed

lemma default_label:
  "str_format default_labels_format i0 i1 tw = str_of_nat i1 @ CHR ''_'' # tw"
  by (simp add: str_format_def default_labels_format_def)

lemma default_label_inj:
  assumes "str_format default_labels_format i0 i1 tw = str_format default_labels_format j0 j1 tw'"
  shows "i1 = j1"
proof -
  have e: "str_of_nat i1 @ CHR ''_'' # tw = str_of_nat j1 @ CHR ''_'' # tw'"
    using assms by (simp only: default_label)
  have "str_of_nat i1 = str_of_nat j1"
    by (rule prefix_before_separator [OF underscore_notin_str_of_nat underscore_notin_str_of_nat e])
  then show ?thesis by (rule str_of_nat_inj)
qed

lemma length_topic_labels_of: "length (topic_labels_of glue fmt xs) = length xs"
  by (simp add: topic_labels_of_def)

lemma nth_topic_labels_of: "i < length xs \<Longrightarrow>
      topic_labels_of glue fmt xs ! i = str_format fmt i (i + 1) (str_join glue (xs ! i))"
  by (simp add: topic_labels_of_def nth_enumerate_eq)

lemma distinct_default_labels:
  "distinct (topic_labels_of glue default_labels_format xs)"
proof -
  have "topic_labels_of glue default_labels_format xs ! i
      \<noteq> topic_labels_of glue default_labels_format xs ! j"
    if "i < length xs" "j < length xs" "i \<noteq> j" for i j
  proof
    assume "topic_labels_of glue default_labels_format xs ! i
          = topic_labels_of glue default_labels_format xs ! j"
    then have "str_format default_labels_format i (i + 1) (str_join glue (xs ! i))
             = str_format default_labels_format j (j + 1) (str_join glue (xs ! j))"
      unfolding nth_topic_labels_of [OF that(1)] nth_topic_labels_of [OF that(2)] .
    then have "i + 1 = j + 1" by (rule default_label_inj)
    with that(3) show False by simp
  qed
  then show ?thesis
    by (simp add: distinct_conv_nth length_topic_labels_of)
qed

lemma length_card_distinct: "(length xs = card (set xs)) = distinct xs"
  using card_distinct [of xs] distinct_card [of xs] by auto

lemma collect_map_Inr:
  assumes "\<And>x. x \<in> set xs \<Longrightarrow> f x = Inr (g x)"
  shows "collect (map f xs) = Inr (map g xs)"
  using assms by (induction xs) simp_all

lemma np_getrow_nat:
  assumes "t < shape0 a"
  shows "np_getrow a (int t) = Inr (rows a ! t)"
  using assms by (simp add: np_getrow_def)

lemma most_relevant_row:
  assumes "is_2d rel" "length vocab = shape1 rel" "t < shape0 rel"
  shows "get_most_relevant_words_for_topic vocab rel (int t) None
       = Inr (map (\<lambda>i. vocab ! i) (rev (argsort (rows rel ! t))))"
proof -
  have len: "length vocab = length (rows rel ! t)"
    using assms by (simp add: is_2d_def list_all_length shape0_def)
  have chk: "check_relevant_words_for_topic_args vocab rel (int t) = Inr ()"
    using assms by (simp add: check_relevant_words_for_topic_args_def is_2d_def)
  show ?thesis
    by (simp add: get_most_relevant_words_for_topic_def relevant_words_for_topic_def chk
        np_getrow_nat [OF assms(3)] words_by_score_None [OF len] score_indices_simps)
qed

lemma most_rel_words_of_eq:
  assumes "is_2d rel" "length vocab = shape1 rel"
  shows "most_rel_words_of vocab rel (shape0 rel)
       = Inr (map (\<lambda>t. map (\<lambda>i. vocab ! i) (rev (argsort (rows rel ! t)))) [0..<shape0 rel])"
  unfolding most_rel_words_of_def
  by (rule collect_map_Inr) (simp add: most_relevant_row [OF assms])

lemma length_argsort: "length (argsort score) = length score"
  by (simp add: argsort_def)

lemma n_most_rel_loop_find:
  "n_most_rel_loop ns mrw acc =
     (case find (unique_prefixes mrw) ns of
        Some n \<Rightarrow> map (take n) mrw
      | None \<Rightarrow> if ns = [] then acc else map (take (last ns)) mrw)"
proof (induction ns arbitrary: acc)
  case Nil
  show ?case by simp
next
  case (Cons n ns)
  show ?case
  proof (cases "unique_prefixes mrw n")
    case True
    then have "length (map (take n) mrw) = card (set (map (take n) mrw))"
      using distinct_card [of "map (take n) mrw"] by (simp add: unique_prefixes_def)
    then show ?thesis using True by (simp add: Let_def)
  next
    case False
    then have "length (map (take n) mrw) \<noteq> card (set (map (take n) mrw))"
      using card_distinct [of "map (take n) mrw"] by (auto simp: unique_prefixes_def)
    then have "n_most_rel_loop (n # ns) mrw acc = n_most_rel_loop ns mrw (map (take n) mrw)"
      by (simp add: Let_def)
    also have "\<dots> = (case find (unique_prefixes mrw) ns of
        Some k \<Rightarrow> map (take k) mrw
      | None \<Rightarrow> if ns = [] then map (take n) mrw else map (take (last ns)) mrw)"
      by (rule Cons.IH)
    also have "\<dots> = (case find (unique_prefixes mrw) (n # ns) of
        Some k \<Rightarrow> map (take k) mrw
      | None \<Rightarrow> if n # ns = [] then acc else map (take (last (n # ns))) mrw)"
      using False by (cases ns) (simp_all split: option.split)
    finally show ?thesis .
  qed
qed

text \<open>The function on a relevance matrix and rankings that were computed.\<close>

lemma generate_None:
  assumes "get_topic_word_relevance phi theta doc_lengths lambda = Inr rel"
    and "most_rel_words_of vocab rel (shape0 phi) = Inr mrw"
  shows "generate_topic_labels_from_top_words phi theta doc_lengths vocab None lambda glue fmt
       = (let n_most_rel = n_most_rel_loop [1..<length vocab + 1] mrw []
          in if n_most_rel = [] then Inl AssertionError
             else if distinct (topic_labels_of glue fmt n_most_rel)
               then Inr (topic_labels_of glue fmt n_most_rel)
               else Inl ValueError)"
  by (simp add: generate_topic_labels_from_top_words_def assms Let_def length_card_distinct)

lemma generate_Some:
  assumes "get_topic_word_relevance phi theta doc_lengths lambda = Inr rel"
    and "most_rel_words_of vocab rel (shape0 phi) = Inr mrw"
    and "1 \<le> k" "k \<le> int (length vocab)"
  shows "generate_topic_labels_from_top_words phi theta doc_lengths vocab (Some k) lambda glue fmt
       = (let n_most_rel = n_most_rel_loop [nat k..<nat k + 1] mrw []
          in if n_most_rel = [] then Inl AssertionError
             else if distinct (topic_labels_of glue fmt n_most_rel)
               then Inr (topic_labels_of glue fmt n_most_rel)
               else Inl ValueError)"
  using assms(3,4)
  by (simp add: generate_topic_labels_from_top_words_def assms(1,2) Let_def length_card_distinct)

lemma n_most_rel_loop_Nil: "n_most_rel_loop ns [] [] = []"
  by (cases ns) (simp_all add: Let_def)

text \<open>Relevance matrix and rankings exist on inputs of matching shapes.\<close>

lemma rankings_exist:
  assumes "matching_shapes phi theta doc_lengths" "length vocab = shape1 phi"
  shows "\<exists>rel mrw. get_topic_word_relevance phi theta doc_lengths lambda = Inr rel
           \<and> most_rel_words_of vocab rel (shape0 phi) = Inr mrw
           \<and> length mrw = shape0 phi
           \<and> (\<forall>ws\<in>set mrw. length ws = length vocab)"
proof -
  obtain p_w where "get_topic_word_relevance phi theta doc_lengths lambda
         = Inr (array2 (shape1 phi)
             (map (\<lambda>i. map (\<lambda>j. lambda * ln (rows phi ! i ! j)
                                   + (1 - lambda) * ln (rows phi ! i ! j / p_w ! j))
                          [0..<shape1 phi]) [0..<shape0 phi]))" (is "_ = Inr ?rel")
    using get_topic_word_relevance_entries [OF assms(1)] by blast
  note rel = this
  have 2: "is_2d ?rel" by (simp add: is_2d_def list_all_iff)
  have v: "length vocab = shape1 ?rel" using assms(2) by simp
  have s0: "shape0 ?rel = shape0 phi" by simp
  let ?mrw = "map (\<lambda>t. map (\<lambda>i. vocab ! i) (rev (argsort (rows ?rel ! t)))) [0..<shape0 phi]"
  have m: "most_rel_words_of vocab ?rel (shape0 phi) = Inr ?mrw"
    using most_rel_words_of_eq [OF 2 v] by (simp only: s0)
  have "\<forall>ws\<in>set ?mrw. length ws = length vocab"
    using assms(2) by (auto simp: length_argsort)
  moreover have "length ?mrw = shape0 phi" by simp
  ultimately show ?thesis using rel m by blast
qed

lemma generate_without_rankings:
  assumes "get_topic_word_relevance phi theta doc_lengths lambda = Inr rel"
    and "most_rel_words_of vocab rel (shape0 phi) = Inr []"
    and "n_words = None \<or> (\<exists>k. n_words = Some k \<and> 1 \<le> k \<and> k \<le> int (length vocab))"
  shows "generate_topic_labels_from_top_words phi theta doc_lengths vocab n_words lambda
           labels_glue labels_format = Inl AssertionError"
  using assms(3)
proof
  assume "n_words = None"
  then show ?thesis
    by (simp add: generate_None [OF assms(1,2)] n_most_rel_loop_Nil)
next
  assume "\<exists>k. n_words = Some k \<and> 1 \<le> k \<and> k \<le> int (length vocab)"
  then obtain k where k: "n_words = Some k" "1 \<le> k" "k \<le> int (length vocab)" by blast
  show ?thesis
    by (simp add: k(1) generate_Some [OF assms(1,2) k(2,3)] n_most_rel_loop_Nil)
qed

text \<open>
  C10: for a topic-word distribution without rows (no topics), with \<open>theta\<close>, the document
  lengths and the vocabulary of matching shapes, \<open>generate_topic_labels_from_top_words\<close>
  raises AssertionError instead of returning an empty list of labels, for \<open>n_words = None\<close>
  and for every valid explicit \<open>n_words\<close>: the list of prefixes is empty and the assertion
  rejects it.
\<close>

theorem generate_topic_labels_no_topics:
  assumes "matching_shapes phi theta doc_lengths" "shape0 phi = 0" "length vocab = shape1 phi"
    and "n_words = None \<or> (\<exists>k. n_words = Some k \<and> 1 \<le> k \<and> k \<le> int (length vocab))"
  shows "generate_topic_labels_from_top_words phi theta doc_lengths vocab n_words lambda
           labels_glue labels_format = Inl AssertionError"
proof -
  obtain rel mrw where rel: "get_topic_word_relevance phi theta doc_lengths lambda = Inr rel"
    and mrw: "most_rel_words_of vocab rel (shape0 phi) = Inr mrw"
    and len: "length mrw = shape0 phi"
    using rankings_exist [OF assms(1,3)] by blast
  have "mrw = []" using len assms(2) by simp
  with mrw have "most_rel_words_of vocab rel (shape0 phi) = Inr []" by simp
  with rel show ?thesis using assms(4) by (rule generate_without_rankings)
qed

theorem generate_topic_labels_no_topics_witness:
  "generate_topic_labels_from_top_words (array2 2 []) (array2 0 [[]]) [3] [''a'', ''b''] None 1
     default_labels_glue default_labels_format = Inl AssertionError
   \<and> generate_topic_labels_from_top_words (array2 2 []) (array2 0 [[]]) [3] [''a'', ''b'']
       (Some 1) 1 default_labels_glue default_labels_format = Inl AssertionError"
  using generate_topic_labels_no_topics [of "array2 2 []" "array2 0 [[]]" "[3]" "[''a'', ''b'']" None]
    generate_topic_labels_no_topics [of "array2 2 []" "array2 0 [[]]" "[3]" "[''a'', ''b'']" "Some 1"]
  by (simp add: matching_shapes_def is_2d_def array2_def shape0_def)


section \<open>The search for the number of top words\<close>

lemma generate_empty_vocab:
  assumes "matching_shapes phi theta doc_lengths" "length vocab = shape1 phi" "vocab = []"
  shows "generate_topic_labels_from_top_words phi theta doc_lengths vocab None lambda
           labels_glue labels_format = Inl AssertionError"
proof -
  obtain rel mrw where rel: "get_topic_word_relevance phi theta doc_lengths lambda = Inr rel"
    and mrw: "most_rel_words_of vocab rel (shape0 phi) = Inr mrw"
    using rankings_exist [OF assms(1,2)] by blast
  show ?thesis
    unfolding generate_None [OF rel mrw] by (simp add: assms(3))
qed

lemma search_smallest_prefix:
  assumes "0 < v"
  shows "\<exists>n. 1 \<le> n \<and> n \<le> v
           \<and> n_most_rel_loop [1..<v + 1] mrw acc = map (take n) mrw
           \<and> ((\<exists>m\<in>{1..v}. unique_prefixes mrw m) \<longrightarrow>
                 unique_prefixes mrw n \<and> (\<forall>m. 1 \<le> m \<and> m < n \<longrightarrow> \<not> unique_prefixes mrw m))
           \<and> ((\<forall>m\<in>{1..v}. \<not> unique_prefixes mrw m) \<longrightarrow> n = v)"
proof (cases "find (unique_prefixes mrw) [1..<v + 1]")
  case None
  then have no: "\<forall>m\<in>{1..v}. \<not> unique_prefixes mrw m"
    by (auto simp del: upt_Suc simp add: find_None_iff)
  have ne: "[1..<v + 1] \<noteq> []" using assms by (simp del: upt_Suc)
  have "last [1..<v + 1] = v" using assms by simp
  then have "n_most_rel_loop [1..<v + 1] mrw acc = map (take v) mrw"
    using None ne by (simp del: upt_Suc add: n_most_rel_loop_find)
  then show ?thesis using assms no by auto
next
  case (Some n)
  then obtain i where i: "i < length [1..<v + 1]" "unique_prefixes mrw ([1..<v + 1] ! i)"
    "n = [1..<v + 1] ! i" "\<forall>j<i. \<not> unique_prefixes mrw ([1..<v + 1] ! j)"
    unfolding find_Some_iff by blast
  have iv: "i < v" using i(1) by (simp del: upt_Suc)
  have n: "n = 1 + i" using i(3) iv by (simp del: upt_Suc)
  have smaller: "\<not> unique_prefixes mrw m" if "1 \<le> m" "m < n" for m
  proof -
    have "m - 1 < i" using that n by simp
    then have "\<not> unique_prefixes mrw ([1..<v + 1] ! (m - 1))" using i(4) by blast
    moreover have "[1..<v + 1] ! (m - 1) = m" using that n iv by (simp del: upt_Suc)
    ultimately show ?thesis by simp
  qed
  have "n_most_rel_loop [1..<v + 1] mrw acc = map (take n) mrw"
    using Some by (simp del: upt_Suc add: n_most_rel_loop_find)
  moreover have "unique_prefixes mrw n" using i(2,3) by simp
  moreover have "1 \<le> n" "n \<le> v" using n iv by simp_all
  ultimately show ?thesis using smaller by auto
qed

lemma take_full_rankings:
  assumes "\<forall>ws\<in>set mrw. length ws = v"
  shows "map (take v) mrw = mrw"
  using assms by (induction mrw) simp_all

text \<open>
  Example models: two topics that rank two words alike, two topics that rank three words
  alike, and two topics whose most relevant words differ.
\<close>

lemma digit_char_literals:
  "digit_char 1 = CHR ''1''" "digit_char 2 = CHR ''2''"
proof -
  have "(of_char (digit_char 1) :: nat) = of_char (CHR ''1'')"
    by (simp add: digit_char_def)
  then show "digit_char 1 = CHR ''1''" by (rule of_char_eqI)
  have "(of_char (digit_char 2) :: nat) = of_char (CHR ''2'')"
    by (simp add: digit_char_def)
  then show "digit_char 2 = CHR ''2''" by (rule of_char_eqI)
qed

lemma str_of_nat_literals:
  "str_of_nat (Suc 0) = ''1''" "str_of_nat (Suc (Suc 0)) = ''2''"
  using digit_char_literals by (simp_all add: str_of_nat_small numeral_2_eq_2)

lemma same2_valid:
  "matching_shapes (array2 2 [[6/10, 4/10], [7/10, 3/10]]) (array2 2 [[1/2, 1/2]]) [3]"
  "positive_entries (array2 2 [[6/10, 4/10], [7/10, 3/10]])"
  "valid_theta (array2 2 [[1/2, 1/2]]) [3]"
  "0 < shape0 (array2 2 [[6/10, 4/10], [7/10, 3/10 :: real]])"
  by (simp_all add: matching_shapes_def is_2d_def positive_entries_def valid_theta_def
      row_stochastic_def array2_def shape0_def)

lemma same2_rel: "get_topic_word_relevance (array2 2 [[6/10, 4/10], [7/10, 3/10]]) (array2 2 [[1/2, 1/2]]) [3] 1
  = Inr (array2 2 [[ln (6/10), ln (4/10)], [ln (7/10), ln (3/10)]])"
  by (subst relevance_lambda_1) (simp_all add: matching_shapes_def is_2d_def array2_def shape0_def np_log_def)

lemma same2_mrw: "most_rel_words_of [''a'', ''b''] (array2 2 [[ln (6/10), ln (4/10)], [ln (7/10), ln (3/10)]])
    (shape0 (array2 2 [[6/10, 4/10], [7/10, 3/10 :: real]]))
  = Inr [[''a'', ''b''], [''a'', ''b'']]"
  by (simp add: most_rel_words_of_def get_most_relevant_words_for_topic_def relevant_words_for_topic_def
      check_relevant_words_for_topic_args_def np_getrow_def words_by_score_def words_by_score_with_def directed_def
      argsort_def array2_def shape0_def upt_rec)

lemma same2_labels: "topic_labels_of ''_'' default_labels_format [[''a'', ''b''], [''a'', ''b'']] = [''1_a_b'', ''2_a_b'']"
  by (simp add: topic_labels_of_def default_label str_of_nat_literals)

lemma same3_rel:
  "get_topic_word_relevance (array2 3 [[5/10, 3/10, 2/10], [6/10, 3/10, 1/10]])
     (array2 2 [[1/2, 1/2]]) [3] 1
   = Inr (array2 3 [[ln (5/10), ln (3/10), ln (2/10)], [ln (6/10), ln (3/10), ln (1/10)]])"
  by (subst relevance_lambda_1)
    (simp_all add: matching_shapes_def is_2d_def array2_def shape0_def np_log_def)

lemma same3_mrw:
  "most_rel_words_of [''a'', ''b'', ''c'']
     (array2 3 [[ln (5/10), ln (3/10), ln (2/10)], [ln (6/10), ln (3/10), ln (1/10)]])
     (shape0 (array2 3 [[5/10, 3/10, 2/10], [6/10, 3/10, 1/10 :: real]]))
   = Inr [[''a'', ''b'', ''c''], [''a'', ''b'', ''c'']]"
  by (simp add: most_rel_words_of_def get_most_relevant_words_for_topic_def
      relevant_words_for_topic_def check_relevant_words_for_topic_args_def np_getrow_def
      words_by_score_def words_by_score_with_def directed_def argsort_def array2_def shape0_def upt_rec)

lemma same3_labels:
  "topic_labels_of ''_'' default_labels_format [[''a'', ''b'', ''c''], [''a'', ''b'', ''c'']]
   = [''1_a_b_c'', ''2_a_b_c'']"
  by (simp add: topic_labels_of_def default_label str_of_nat_literals)

lemma diff2_valid:
  "matching_shapes (array2 2 [[6/10, 4/10], [3/10, 7/10]]) (array2 2 [[1/2, 1/2]]) [3]"
  "positive_entries (array2 2 [[6/10, 4/10], [3/10, 7/10]])"
  "0 < shape0 (array2 2 [[6/10, 4/10], [3/10, 7/10 :: real]])"
  by (simp_all add: matching_shapes_def is_2d_def positive_entries_def array2_def shape0_def)

lemma diff2_rel:
  "get_topic_word_relevance (array2 2 [[6/10, 4/10], [3/10, 7/10]]) (array2 2 [[1/2, 1/2]]) [3] 1
   = Inr (array2 2 [[ln (6/10), ln (4/10)], [ln (3/10), ln (7/10)]])"
  by (subst relevance_lambda_1)
    (simp_all add: matching_shapes_def is_2d_def array2_def shape0_def np_log_def)

lemma diff2_mrw:
  "most_rel_words_of [''a'', ''b''] (array2 2 [[ln (6/10), ln (4/10)], [ln (3/10), ln (7/10)]])
     (shape0 (array2 2 [[6/10, 4/10], [3/10, 7/10 :: real]]))
   = Inr [[''a'', ''b''], [''b'', ''a'']]"
  by (simp add: most_rel_words_of_def get_most_relevant_words_for_topic_def
      relevant_words_for_topic_def check_relevant_words_for_topic_args_def np_getrow_def
      words_by_score_def words_by_score_with_def directed_def argsort_def array2_def shape0_def upt_rec)

text \<open>
  C2 (amended): for a topic-word distribution with strictly positive entries, at least one
  topic and a non-empty vocabulary, with a valid \<open>theta\<close> and document lengths of matching
  shapes, \<open>generate_topic_labels_from_top_words\<close> with \<open>n_words = None\<close> and the default
  label format returns pairwise distinct labels, built from the \<open>n\<close> most relevant words of
  every topic, where \<open>1 \<le> n \<le> len(vocab)\<close>; if some prefix length in that range makes the
  per-topic tuples pairwise distinct, \<open>n\<close> is the smallest such length, and otherwise \<open>n\<close> is
  the size of the vocabulary.
\<close>

theorem generate_topic_labels_smallest_prefix:
  assumes "matching_shapes phi theta doc_lengths" "length vocab = shape1 phi"
    and "positive_entries phi" "valid_theta theta doc_lengths"
    and "0 < shape0 phi" "0 < length vocab"
  shows "\<exists>rel mrw n.
           get_topic_word_relevance phi theta doc_lengths lambda = Inr rel
         \<and> most_rel_words_of vocab rel (shape0 phi) = Inr mrw
         \<and> generate_topic_labels_from_top_words phi theta doc_lengths vocab None lambda
               labels_glue default_labels_format
             = Inr (topic_labels_of labels_glue default_labels_format (map (take n) mrw))
         \<and> distinct (topic_labels_of labels_glue default_labels_format (map (take n) mrw))
         \<and> 1 \<le> n \<and> n \<le> length vocab
         \<and> ((\<exists>m\<in>{1..length vocab}. unique_prefixes mrw m) \<longrightarrow>
               unique_prefixes mrw n \<and> (\<forall>m. 1 \<le> m \<and> m < n \<longrightarrow> \<not> unique_prefixes mrw m))
         \<and> ((\<forall>m\<in>{1..length vocab}. \<not> unique_prefixes mrw m) \<longrightarrow> n = length vocab)"
proof -
  obtain rel mrw where rel: "get_topic_word_relevance phi theta doc_lengths lambda = Inr rel"
    and mrw: "most_rel_words_of vocab rel (shape0 phi) = Inr mrw"
    and len: "length mrw = shape0 phi"
    using rankings_exist [OF assms(1,2)] by blast
  obtain n where n: "1 \<le> n" "n \<le> length vocab"
    and loop: "n_most_rel_loop [1..<length vocab + 1] mrw [] = map (take n) mrw"
    and small: "(\<exists>m\<in>{1..length vocab}. unique_prefixes mrw m) \<longrightarrow>
               unique_prefixes mrw n \<and> (\<forall>m. 1 \<le> m \<and> m < n \<longrightarrow> \<not> unique_prefixes mrw m)"
    and full: "(\<forall>m\<in>{1..length vocab}. \<not> unique_prefixes mrw m) \<longrightarrow> n = length vocab"
    using search_smallest_prefix [OF assms(6), of mrw "[]"] by blast
  have ne: "map (take n) mrw \<noteq> []" using len assms(5) by auto
  have d: "distinct (topic_labels_of labels_glue default_labels_format (map (take n) mrw))"
    by (rule distinct_default_labels)
  have "generate_topic_labels_from_top_words phi theta doc_lengths vocab None lambda
               labels_glue default_labels_format
             = Inr (topic_labels_of labels_glue default_labels_format (map (take n) mrw))"
    unfolding generate_None [OF rel mrw] loop Let_def using ne d by simp
  with rel mrw d n small full show ?thesis by blast
qed

theorem generate_topic_labels_smallest_prefix_witness:
  "generate_topic_labels_from_top_words (array2 2 [[6/10, 4/10], [3/10, 7/10]])
     (array2 2 [[1/2, 1/2]]) [3] [''a'', ''b''] None 1 ''_'' default_labels_format
   = Inr [''1_a'', ''2_b'']"
proof -
  let ?phi = "array2 2 [[6/10, 4/10], [3/10, 7/10 :: real]]"
  let ?theta = "array2 2 [[1/2, 1/2 :: real]]"
  have v: "length [''a'', ''b''] = shape1 ?phi" "0 < length [''a'', ''b'']"
    by (simp_all add: array2_def)
  obtain rel mrw n where rel: "get_topic_word_relevance ?phi ?theta [3] 1 = Inr rel"
    and mrw: "most_rel_words_of [''a'', ''b''] rel (shape0 ?phi) = Inr mrw"
    and res: "generate_topic_labels_from_top_words ?phi ?theta [3] [''a'', ''b''] None 1 ''_''
            default_labels_format
          = Inr (topic_labels_of ''_'' default_labels_format (map (take n) mrw))"
    and n: "1 \<le> n"
    and least: "(\<exists>m\<in>{1..length [''a'', ''b'']}. unique_prefixes mrw m) \<longrightarrow>
          unique_prefixes mrw n \<and> (\<forall>m. 1 \<le> m \<and> m < n \<longrightarrow> \<not> unique_prefixes mrw m)"
    using generate_topic_labels_smallest_prefix
      [OF diff2_valid(1) v(1) diff2_valid(2) same2_valid(3) diff2_valid(3) v(2), of 1 "''_''"]
    by blast
  have "rel = array2 2 [[ln (6/10), ln (4/10)], [ln (3/10), ln (7/10)]]"
    using rel diff2_rel by simp
  then have m: "mrw = [[''a'', ''b''], [''b'', ''a'']]"
    using mrw diff2_mrw by simp
  have u: "unique_prefixes mrw 1"
    by (simp add: m unique_prefixes_def)
  then have "\<exists>m\<in>{1..length [''a'', ''b'']}. unique_prefixes mrw m" by auto
  with least have "\<forall>m. 1 \<le> m \<and> m < n \<longrightarrow> \<not> unique_prefixes mrw m" by blast
  with u n have "n = 1" by (metis le_neq_implies_less le_refl)
  then show ?thesis
    using res by (simp add: m topic_labels_of_def default_label str_of_nat_literals)
qed

text \<open>
  C2 as stated fails: two topics that rank the three words alike get labels of all three
  words, although the tuples are not distinct for that (or any) prefix length; and without
  topics or with an empty vocabulary the function does not return but fails its assertion.
\<close>

theorem generate_topic_labels_prefix_counterexample:
  "generate_topic_labels_from_top_words (array2 3 [[5/10, 3/10, 2/10], [6/10, 3/10, 1/10]])
     (array2 2 [[1/2, 1/2]]) [3] [''a'', ''b'', ''c''] None 1
     default_labels_glue default_labels_format
   = Inr [''1_a_b_c'', ''2_a_b_c'']
   \<and> \<not> unique_prefixes [[''a'', ''b'', ''c''], [''a'', ''b'', ''c'']] 3
   \<and> generate_topic_labels_from_top_words (array2 2 []) (array2 0 [[]]) [3] [''a'', ''b'']
       None 1 default_labels_glue default_labels_format = Inl AssertionError
   \<and> generate_topic_labels_from_top_words (array2 0 [[]]) (array2 1 [[1]]) [3] []
       None 1 default_labels_glue default_labels_format = Inl AssertionError"
proof -
  have a: "generate_topic_labels_from_top_words (array2 3 [[5/10, 3/10, 2/10], [6/10, 3/10, 1/10]])
     (array2 2 [[1/2, 1/2]]) [3] [''a'', ''b'', ''c''] None 1
     default_labels_glue default_labels_format
   = Inr [''1_a_b_c'', ''2_a_b_c'']"
    by (subst generate_None [OF same3_rel same3_mrw])
      (simp add: upt_rec Let_def default_labels_glue_def same3_labels)
  have b: "generate_topic_labels_from_top_words (array2 2 []) (array2 0 [[]]) [3] [''a'', ''b'']
       None 1 default_labels_glue default_labels_format = Inl AssertionError"
  proof -
    have "matching_shapes (array2 2 []) (array2 0 [[]]) [3]"
      "length [''a'', ''b''] = shape1 (array2 2 ([] :: real list list))"
      by (simp_all add: matching_shapes_def is_2d_def array2_def shape0_def)
    then obtain rel mrw
      where rel: "get_topic_word_relevance (array2 2 []) (array2 0 [[]]) [3] 1 = Inr rel"
        and mrw: "most_rel_words_of [''a'', ''b''] rel
                    (shape0 (array2 2 ([] :: real list list))) = Inr mrw"
        and len: "length mrw = shape0 (array2 2 ([] :: real list list))"
      using rankings_exist by blast
    have "mrw = []" using len by (simp add: shape0_def array2_def)
    with mrw have "most_rel_words_of [''a'', ''b''] rel
        (shape0 (array2 2 ([] :: real list list))) = Inr []" by simp
    with rel show ?thesis by (rule generate_without_rankings) simp
  qed
  have c: "generate_topic_labels_from_top_words (array2 0 [[]]) (array2 1 [[1]]) [3] []
       None 1 default_labels_glue default_labels_format = Inl AssertionError"
    by (rule generate_empty_vocab) (simp_all add: matching_shapes_def is_2d_def array2_def shape0_def)
  show ?thesis using a b c by (simp add: unique_prefixes_def)
qed

text \<open>
  C3 (amended): under the conditions of C2 (at least one topic, a non-empty vocabulary), if
  no prefix length up to the size of the vocabulary yields pairwise distinct per-topic
  tuples, the function does not fail its assertion: it formats the labels from the full
  rankings, returns them if they are pairwise distinct, which is always so with the default
  label format, and raises ValueError otherwise.
\<close>

theorem generate_topic_labels_no_unique_prefix:
  assumes "matching_shapes phi theta doc_lengths" "length vocab = shape1 phi"
    and "positive_entries phi" "valid_theta theta doc_lengths"
    and "0 < shape0 phi" "0 < length vocab"
  shows "\<exists>rel mrw.
           get_topic_word_relevance phi theta doc_lengths lambda = Inr rel
         \<and> most_rel_words_of vocab rel (shape0 phi) = Inr mrw
         \<and> ((\<forall>n\<in>{1..length vocab}. \<not> unique_prefixes mrw n) \<longrightarrow>
               generate_topic_labels_from_top_words phi theta doc_lengths vocab None lambda
                   labels_glue labels_format
                 = (if distinct (topic_labels_of labels_glue labels_format mrw)
                    then Inr (topic_labels_of labels_glue labels_format mrw)
                    else Inl ValueError)
             \<and> generate_topic_labels_from_top_words phi theta doc_lengths vocab None lambda
                   labels_glue default_labels_format
                 = Inr (topic_labels_of labels_glue default_labels_format mrw))"
proof -
  obtain rel mrw where rel: "get_topic_word_relevance phi theta doc_lengths lambda = Inr rel"
    and mrw: "most_rel_words_of vocab rel (shape0 phi) = Inr mrw"
    and len: "length mrw = shape0 phi"
    and full: "\<forall>ws\<in>set mrw. length ws = length vocab"
    using rankings_exist [OF assms(1,2)] by blast
  have ne: "mrw \<noteq> []" using len assms(5) by auto
  have "generate_topic_labels_from_top_words phi theta doc_lengths vocab None lambda
                   labels_glue fmt
                 = (if distinct (topic_labels_of labels_glue fmt mrw)
                    then Inr (topic_labels_of labels_glue fmt mrw)
                    else Inl ValueError)"
    if no: "\<forall>n\<in>{1..length vocab}. \<not> unique_prefixes mrw n" for fmt
  proof -
    obtain n where "n_most_rel_loop [1..<length vocab + 1] mrw [] = map (take n) mrw"
      and "(\<forall>m\<in>{1..length vocab}. \<not> unique_prefixes mrw m) \<longrightarrow> n = length vocab"
      using search_smallest_prefix [OF assms(6), of mrw "[]"] by blast
    then have "n_most_rel_loop [1..<length vocab + 1] mrw [] = mrw"
      using no take_full_rankings [OF full] by simp
    then show ?thesis unfolding generate_None [OF rel mrw] Let_def using ne by simp
  qed
  then show ?thesis
    using rel mrw distinct_default_labels [of labels_glue mrw] by auto
qed

theorem generate_topic_labels_no_unique_prefix_witness:
  "generate_topic_labels_from_top_words (array2 2 [[6/10, 4/10], [7/10, 3/10]])
     (array2 2 [[1/2, 1/2]]) [3] [''a'', ''b''] None 1 ''_'' [Topwords] = Inl ValueError
   \<and> generate_topic_labels_from_top_words (array2 2 [[6/10, 4/10], [7/10, 3/10]])
     (array2 2 [[1/2, 1/2]]) [3] [''a'', ''b''] None 1 ''_'' default_labels_format
     = Inr [''1_a_b'', ''2_a_b'']"
proof -
  let ?phi = "array2 2 [[6/10, 4/10], [7/10, 3/10 :: real]]"
  let ?theta = "array2 2 [[1/2, 1/2 :: real]]"
  have v: "length [''a'', ''b''] = shape1 ?phi" "0 < length [''a'', ''b'']"
    by (simp_all add: array2_def)
  obtain rel mrw where rel: "get_topic_word_relevance ?phi ?theta [3] 1 = Inr rel"
    and mrw: "most_rel_words_of [''a'', ''b''] rel (shape0 ?phi) = Inr mrw"
    and res: "(\<forall>n\<in>{1..length [''a'', ''b'']}. \<not> unique_prefixes mrw n) \<longrightarrow>
        generate_topic_labels_from_top_words ?phi ?theta [3] [''a'', ''b''] None 1 ''_'' [Topwords]
          = (if distinct (topic_labels_of ''_'' [Topwords] mrw)
             then Inr (topic_labels_of ''_'' [Topwords] mrw) else Inl ValueError)
        \<and> generate_topic_labels_from_top_words ?phi ?theta [3] [''a'', ''b''] None 1 ''_''
            default_labels_format = Inr (topic_labels_of ''_'' default_labels_format mrw)"
    using generate_topic_labels_no_unique_prefix
      [OF same2_valid(1) v(1) same2_valid(2,3,4) v(2), of 1 "''_''" "[Topwords]"]
    by blast
  have "rel = array2 2 [[ln (6/10), ln (4/10)], [ln (7/10), ln (3/10)]]"
    using rel same2_rel by simp
  then have m: "mrw = [[''a'', ''b''], [''a'', ''b'']]"
    using mrw same2_mrw by simp
  have "\<forall>n\<in>{1..length [''a'', ''b'']}. \<not> unique_prefixes mrw n"
    by (simp add: m unique_prefixes_def)
  moreover have "topic_labels_of ''_'' [Topwords] [[''a'', ''b''], [''a'', ''b'']] = [''a_b'', ''a_b'']"
    by (simp add: topic_labels_of_def str_format_def)
  ultimately show ?thesis
    using res by (simp add: m same2_labels)
qed

text \<open>
  C3 as stated fails: two topics rank both words alike, so that no prefix length yields
  distinct tuples, and the function returns the labels of the full rankings.
\<close>

theorem generate_topic_labels_same_ranking_counterexample:
  "generate_topic_labels_from_top_words (array2 2 [[6/10, 4/10], [7/10, 3/10]])
     (array2 2 [[1/2, 1/2]]) [3] [''a'', ''b''] None 1 default_labels_glue default_labels_format
   = Inr [''1_a_b'', ''2_a_b'']
   \<and> \<not> unique_prefixes [[''a'', ''b''], [''a'', ''b'']] 1
   \<and> \<not> unique_prefixes [[''a'', ''b''], [''a'', ''b'']] 2"
proof -
  have "generate_topic_labels_from_top_words (array2 2 [[6/10, 4/10], [7/10, 3/10]])
     (array2 2 [[1/2, 1/2]]) [3] [''a'', ''b''] None 1 default_labels_glue default_labels_format
   = Inr [''1_a_b'', ''2_a_b'']"
    by (subst generate_None [OF same2_rel same2_mrw])
      (simp add: upt_rec Let_def default_labels_glue_def same2_labels)
  then show ?thesis by (simp add: unique_prefixes_def)
qed

end
